theory Spec2Isabelle
  imports Complex_Main "HOL-Library.Multiset"
begin

section \<open>Python values and exceptions\<close>

text \<open>
  The exceptions the modelled code can raise. A Python function that may raise returns
  a value of \<open>py_error + 'a\<close>, with \<open>Inl\<close> for the exception. \<open>TermiosError\<close> stands for
  \<open>termios.error\<close>.
\<close>

datatype py_error =
    IndexError
  | ValueError
  | KeyError
  | KeyboardInterrupt
  | TermiosError

fun bind_err :: "py_error + 'a \<Rightarrow> ('a \<Rightarrow> py_error + 'b) \<Rightarrow> py_error + 'b" where
  "bind_err (Inl e) f = Inl e"
| "bind_err (Inr x) f = f x"

text \<open>\<open>s[i]\<close> on a Python string, for a non-negative index: IndexError out of range.\<close>

definition str_get :: "string \<Rightarrow> nat \<Rightarrow> py_error + char" where
  "str_get s i = (if i < length s then Inr (s ! i) else Inl IndexError)"

text \<open>\<open>xs[i]\<close> on a Python list, for a non-negative index.\<close>

definition list_get :: "'a list \<Rightarrow> nat \<Rightarrow> py_error + 'a" where
  "list_get xs i = (if i < length xs then Inr (xs ! i) else Inl IndexError)"

text \<open>\<open>s.index(c)\<close> for a one-character string \<open>c\<close>: ValueError when absent.\<close>

fun str_index :: "string \<Rightarrow> char \<Rightarrow> py_error + nat" where
  "str_index [] c = Inl ValueError"
| "str_index (x # xs) c =
     (if x = c then Inr 0 else bind_err (str_index xs c) (\<lambda>n. Inr (Suc n)))"

text \<open>\<open>d[k]\<close> on a Python dict: KeyError when the key is absent.\<close>

definition dict_get :: "('k \<rightharpoonup> 'v) \<Rightarrow> 'k \<Rightarrow> py_error + 'v" where
  "dict_get d k = (case d k of None \<Rightarrow> Inl KeyError | Some v \<Rightarrow> Inr v)"

section \<open>Range logic\<close>

text \<open>
  A card is a Python string such as \<open>As\<close>; only its first two characters are read.
\<close>

definition RANKS :: string where
  "RANKS = ''23456789TJQKA''"

definition SUITS :: string where
  "SUITS = ''shdc''"

definition rank_value :: "char \<Rightarrow> py_error + nat" where
  "rank_value r = str_index RANKS r"

definition normalize_cards :: "string \<Rightarrow> string \<Rightarrow> py_error + (char \<times> char \<times> bool \<times> bool)" where
  "normalize_cards card1 card2 =
     bind_err (str_get card1 0) (\<lambda>r1.
     bind_err (str_get card1 1) (\<lambda>s1.
     bind_err (str_get card2 0) (\<lambda>r2.
     bind_err (str_get card2 1) (\<lambda>s2.
       let pair = (r1 = r2);
           suited = (s1 = s2)
       in bind_err (rank_value r1) (\<lambda>v1.
          bind_err (rank_value r2) (\<lambda>v2.
            if v1 > v2 then Inr (r1, r2, suited, pair)
            else Inr (r2, r1, suited, pair)))))))"

definition in_suited_rules :: "char \<Rightarrow> char \<Rightarrow> py_error + bool" where
  "in_suited_rules hi lo =
     bind_err (rank_value lo) (\<lambda>lo_val.
       if hi = CHR ''A'' \<or> hi = CHR ''K'' \<or> hi = CHR ''Q'' then Inr True
       else if hi = CHR ''J'' then bind_err (rank_value (CHR ''4'')) (\<lambda>v. Inr (lo_val \<ge> v))
       else if hi = CHR ''T'' then bind_err (rank_value (CHR ''6'')) (\<lambda>v. Inr (lo_val \<ge> v))
       else if hi = CHR ''9'' then bind_err (rank_value (CHR ''6'')) (\<lambda>v. Inr (lo_val \<ge> v))
       else if hi = CHR ''8'' then bind_err (rank_value (CHR ''5'')) (\<lambda>v. Inr (lo_val \<ge> v))
       else if hi = CHR ''7'' then bind_err (rank_value (CHR ''5'')) (\<lambda>v. Inr (lo_val \<ge> v))
       else if hi = CHR ''6'' then bind_err (rank_value (CHR ''4'')) (\<lambda>v. Inr (lo_val \<ge> v))
       else if hi = CHR ''5'' then bind_err (rank_value (CHR ''3'')) (\<lambda>v. Inr (lo_val \<ge> v))
       else if hi = CHR ''4'' then Inr (lo = CHR ''3'')
       else Inr False)"

definition ge_rank :: "char \<Rightarrow> char \<Rightarrow> py_error + bool" where
  \<comment> \<open>\<open>rank_value(lo) >= rank_value(c)\<close>, the left operand evaluated first\<close>
  "ge_rank lo c = bind_err (rank_value lo) (\<lambda>a. bind_err (rank_value c) (\<lambda>b. Inr (a \<ge> b)))"

definition in_offsuit_rules :: "char \<Rightarrow> char \<Rightarrow> py_error + bool" where
  "in_offsuit_rules hi lo =
     (if hi = CHR ''A'' then ge_rank lo (CHR ''3'')
      else if hi = CHR ''K'' then ge_rank lo (CHR ''8'')
      else if hi = CHR ''Q'' then ge_rank lo (CHR ''8'')
      else if hi = CHR ''J'' then ge_rank lo (CHR ''8'')
      else if hi = CHR ''T'' then ge_rank lo (CHR ''8'')
      else Inr (hi = CHR ''9'' \<and> lo = CHR ''8''))"

definition is_btn_open_45 :: "string \<Rightarrow> string \<Rightarrow> py_error + bool" where
  "is_btn_open_45 card1 card2 =
     bind_err (normalize_cards card1 card2) (\<lambda>(hi, lo, suited, pair).
       if pair then Inr True
       else if suited then in_suited_rules hi lo
       else in_offsuit_rules hi lo)"

section \<open>Dealing\<close>

definition fresh_deck :: "string list" where
  "fresh_deck = [[r, s]. r \<leftarrow> RANKS, s \<leftarrow> SUITS]"

text \<open>
  The module \<open>random\<close> of the standard library is not part of the repository; it is a
  parameter of the model. Its process-wide generator has a state of type \<open>'g\<close>;
  \<open>random.seed(n)\<close> replaces the state by \<open>rnd_seed n\<close>, and \<open>random.shuffle(xs)\<close>, which
  permutes the list in place, returns the shuffled list together with the next state.
\<close>

record 'g random_module =
  rnd_seed :: "int \<Rightarrow> 'g"
  rnd_shuffle :: "'g \<Rightarrow> string list \<Rightarrow> string list \<times> 'g"

definition seed_rng :: "'g random_module \<Rightarrow> int option \<Rightarrow> 'g \<Rightarrow> 'g" where
  \<comment> \<open>\<open>if seed is not None: random.seed(seed)\<close>\<close>
  "seed_rng R seed g = (case seed of None \<Rightarrow> g | Some s \<Rightarrow> rnd_seed R s)"

text \<open>
  The rejection loop \<open>while True\<close> has no bound on its attempts, so the model is a
  partial function: \<open>None\<close> is the loop that never returns. A result carries the state of
  the generator after the call.
\<close>

partial_function (option) deal_loop ::
  "'g random_module \<Rightarrow> 'g \<Rightarrow> ((py_error + (string \<times> string) \<times> string list) \<times> 'g) option" where
  "deal_loop R g =
     (case rnd_shuffle R g fresh_deck of (deck, g') \<Rightarrow>
        (case list_get deck 0 of Inl e \<Rightarrow> Some (Inl e, g') | Inr c1 \<Rightarrow>
        (case list_get deck 1 of Inl e \<Rightarrow> Some (Inl e, g') | Inr c2 \<Rightarrow>
        (case is_btn_open_45 c1 c2 of Inl e \<Rightarrow> Some (Inl e, g') | Inr ok \<Rightarrow>
           if ok then Some (Inr ((c1, c2), take 5 (drop 2 deck)), g')
           else deal_loop R g'))))"

definition deal_btn_open_and_board ::
  "'g random_module \<Rightarrow> int option \<Rightarrow> 'g
     \<Rightarrow> ((py_error + (string \<times> string) \<times> string list) \<times> 'g) option" where
  "deal_btn_open_and_board R seed g = deal_loop R (seed_rng R seed g)"

section \<open>Text written to the terminal\<close>

text \<open>
  Standard output is a list of byte strings, one for each call of \<open>print\<close>. Text outside
  ASCII (the suit glyphs) is written as its UTF-8 bytes.
\<close>

definition nl :: char where "nl = CHR 0x0A"
definition cr :: char where "cr = CHR 0x0D"
definition tab :: char where "tab = CHR 0x09"
definition esc :: char where "esc = CHR 0x1B"

fun str_nat :: "nat \<Rightarrow> string" where
  "str_nat n =
     (if n < 10 then [''0123456789'' ! n]
      else str_nat (n div 10) @ [''0123456789'' ! (n mod 10)])"

definition str_int :: "int \<Rightarrow> string" where
  "str_int i = (if i < 0 then CHR ''-'' # str_nat (nat (- i)) else str_nat (nat i))"

definition rjust :: "nat \<Rightarrow> string \<Rightarrow> string" where
  \<comment> \<open>the padding of the format \<open>{:2d}\<close>\<close>
  "rjust width s = replicate (width - length s) (CHR '' '') @ s"

definition py_int :: "real \<Rightarrow> int" where
  \<comment> \<open>\<open>int(x)\<close> truncates towards zero\<close>
  "py_int x = (if x < 0 then \<lceil>x\<rceil> else \<lfloor>x\<rfloor>)"

fun join_str :: "string \<Rightarrow> string list \<Rightarrow> string" where
  "join_str sep [] = []"
| "join_str sep [x] = x"
| "join_str sep (x # y # ys) = x @ sep @ join_str sep (y # ys)"

definition SUIT_SYMBOLS :: "char \<rightharpoonup> string" where
  "SUIT_SYMBOLS = map_of
     [(CHR ''s'', [CHR 0xE2, CHR 0x99, CHR 0xA0]),
      (CHR ''h'', [CHR 0xE2, CHR 0x99, CHR 0xA5]),
      (CHR ''d'', [CHR 0xE2, CHR 0x99, CHR 0xA6]),
      (CHR ''c'', [CHR 0xE2, CHR 0x99, CHR 0xA3])]"

definition SUIT_COLORS :: "char \<rightharpoonup> string" where
  "SUIT_COLORS = map_of
     [(CHR ''s'', esc # ''[97m''),
      (CHR ''h'', esc # ''[91m''),
      (CHR ''d'', esc # ''[94m''),
      (CHR ''c'', esc # ''[92m'')]"

definition RESET_COLOR :: string where
  "RESET_COLOR = esc # ''[0m''"

definition format_card :: "string \<Rightarrow> py_error + string" where
  "format_card c =
     bind_err (str_get c 0) (\<lambda>rank.
     bind_err (str_get c 1) (\<lambda>suit.
     bind_err (dict_get SUIT_COLORS suit) (\<lambda>color.
     bind_err (dict_get SUIT_SYMBOLS suit) (\<lambda>symbol.
       Inr (color @ [rank] @ symbol @ RESET_COLOR)))))"

fun format_each :: "string list \<Rightarrow> py_error + string list" where
  "format_each [] = Inr []"
| "format_each (c # cs) =
     bind_err (format_card c) (\<lambda>f. bind_err (format_each cs) (\<lambda>fs. Inr (f # fs)))"

definition format_cards :: "string list \<Rightarrow> py_error + string" where
  "format_cards cards = bind_err (format_each cards) (\<lambda>fs. Inr (join_str '' '' fs))"

section \<open>Waiting for a key or the timeout\<close>

text \<open>
  What one call of \<open>wait_for_key_with_timeout\<close> meets outside the program:
  \<^item> \<open>stdin\<close>: whether \<open>sys.stdin.fileno()\<close> raises \<open>io.UnsupportedOperation\<close> (\<open>NoFileno\<close>),
    or standard input has a descriptor on which \<open>termios.tcgetattr\<close> fails (\<open>NotATty\<close>),
    or it is a terminal (\<open>Tty\<close>);
  \<^item> \<open>clock\<close>: the successive values of \<open>time.time()\<close>: reading 0 is \<open>start_time\<close>, reading
    \<open>2k + 1\<close> the test of the loop in round \<open>k\<close>, reading \<open>2k + 2\<close> the one for \<open>remaining\<close>;
  \<^item> \<open>keys\<close>: the characters this call's watcher thread has read from the terminal by the
    time round \<open>k\<close> polls \<open>key_pressed\<close>. The terminal is in raw mode then, so Ctrl-C
    arrives here, as the character 0x03, and raises no signal;
  \<^item> \<open>sigint\<close>: the round, if any, during whose \<open>time.sleep\<close> the signal SIGINT reaches
    the main thread (sent from outside, or from a terminal that is not in raw mode).

  The platform is taken to have the modules \<open>termios\<close>, \<open>tty\<close> and \<open>select\<close>.
\<close>

datatype stdin_kind = NoFileno | NotATty | Tty

record wait_env =
  stdin :: stdin_kind
  clock :: "nat \<Rightarrow> real"
  keys :: "nat \<Rightarrow> string"
  sigint :: "nat option"

text \<open>
  The thread \<open>check_keypress\<close> is a state machine over the characters it reads. It runs
  beside the main thread: an exception it raises ends the thread and nothing else, and
  the event \<open>key_pressed\<close> (the boolean beside the state) is all the main thread sees.
\<close>

datatype watcher = Polling | Returned | Raised py_error

definition check_keypress_start :: "stdin_kind \<Rightarrow> watcher" where
  "check_keypress_start k =
     (case k of NoFileno \<Rightarrow> Returned | NotATty \<Rightarrow> Raised TermiosError | Tty \<Rightarrow> Polling)"

fun check_keypress_step :: "watcher \<times> bool \<Rightarrow> char \<Rightarrow> watcher \<times> bool" where
  "check_keypress_step (Polling, key_pressed) ch =
     (if ch = CHR 0x03 then (Raised KeyboardInterrupt, key_pressed)
      else if ch = CHR '' '' \<or> ch = cr \<or> ch = nl then (Returned, True)
      else (Polling, key_pressed))"
| "check_keypress_step (Returned, key_pressed) ch = (Returned, key_pressed)"
| "check_keypress_step (Raised e, key_pressed) ch = (Raised e, key_pressed)"

definition check_keypress :: "watcher \<times> bool \<Rightarrow> string \<Rightarrow> watcher \<times> bool" where
  "check_keypress st chars = foldl check_keypress_step st chars"

definition clear_text :: string where
  "clear_text = cr # replicate 20 (CHR '' '') @ [cr]"

definition countdown_text :: "int \<Rightarrow> string" where
  "countdown_text remaining = cr # tab # tab # rjust 2 (str_int remaining) @ ''s''"

text \<open>
  The countdown loop of the main thread, round \<open>k\<close>. It runs as long as the clock says,
  so it is a partial function.
\<close>

partial_function (option) countdown ::
  "wait_env \<Rightarrow> int \<Rightarrow> real \<Rightarrow> nat \<Rightarrow> watcher \<times> bool \<Rightarrow> string list
     \<Rightarrow> ((py_error + bool) \<times> string list) option" where
  "countdown env timeout_seconds start_time k st out =
     (if clock env (2 * k + 1) - start_time < of_int timeout_seconds then
        (let remaining = timeout_seconds - py_int (clock env (2 * k + 2) - start_time);
             st' = check_keypress st (keys env k)
         in if snd st' then Some (Inr True, out @ [clear_text])
            else if sigint env = Some k
              then Some (Inl KeyboardInterrupt, out @ [countdown_text remaining])
            else countdown env timeout_seconds start_time (Suc k) st'
                   (out @ [countdown_text remaining]))
      else Some (Inr False, out @ [clear_text]))"

definition wait_for_key_with_timeout ::
  "wait_env \<Rightarrow> int \<Rightarrow> string list \<Rightarrow> ((py_error + bool) \<times> string list) option" where
  "wait_for_key_with_timeout env timeout_seconds out =
     countdown env timeout_seconds (clock env 0) 0
       (check_keypress_start (stdin env), False) out"

section \<open>The session\<close>

text \<open>
  The state of the process: the generator of \<open>random\<close>, what has been written to standard
  output, and how many waits have begun (wait number \<open>n\<close> meets the environment
  \<open>envs n\<close>). A statement of the program is a function from the state to an optional
  result: \<open>None\<close> when it never returns, otherwise the exception or the value and the
  state after it.
\<close>

record 'g world =
  rng :: 'g
  stdout :: "string list"
  waits :: nat

type_synonym ('g, 'a) prog = "'g world \<Rightarrow> ((py_error + 'a) \<times> 'g world) option"

definition return_prog :: "'a \<Rightarrow> ('g, 'a) prog" where
  "return_prog x w = Some (Inr x, w)"

definition bind_prog :: "('g, 'a) prog \<Rightarrow> ('a \<Rightarrow> ('g, 'b) prog) \<Rightarrow> ('g, 'b) prog" where
  "bind_prog m f w =
     (case m w of
        None \<Rightarrow> None
      | Some (Inl e, w') \<Rightarrow> Some (Inl e, w')
      | Some (Inr x, w') \<Rightarrow> f x w')"

definition lift_err :: "py_error + 'a \<Rightarrow> ('g, 'a) prog" where
  "lift_err r w = Some (r, w)"

definition py_print :: "string \<Rightarrow> ('g, unit) prog" where
  "py_print s w = Some (Inr (), w\<lparr>stdout := stdout w @ [s @ [nl]]\<rparr>)"

definition wait_prog :: "(nat \<Rightarrow> wait_env) \<Rightarrow> int \<Rightarrow> ('g, bool) prog" where
  "wait_prog envs timeout_seconds w =
     (case wait_for_key_with_timeout (envs (waits w)) timeout_seconds (stdout w) of
        None \<Rightarrow> None
      | Some (r, out) \<Rightarrow> Some (r, w\<lparr>stdout := out, waits := Suc (waits w)\<rparr>))"

definition deal_prog ::
  "'g random_module \<Rightarrow> int option \<Rightarrow> ('g, (string \<times> string) \<times> string list) prog" where
  "deal_prog R seed w =
     (case deal_btn_open_and_board R seed (rng w) of
        None \<Rightarrow> None
      | Some (r, g') \<Rightarrow> Some (r, w\<lparr>rng := g'\<rparr>))"

text \<open>
  The body of the loop of \<open>main\<close> after the deal: the four streets, each followed by a
  wait whose returned boolean is dropped.
\<close>

definition reveal ::
  "(nat \<Rightarrow> wait_env) \<Rightarrow> int \<Rightarrow> int \<Rightarrow> string \<times> string \<Rightarrow> string list \<Rightarrow> ('g, unit) prog" where
  "reveal envs timeout i hand board =
     bind_prog (py_print (nl # ''Hand '' @ str_int i @ '':'')) (\<lambda>_.
     bind_prog (lift_err (format_card (fst hand))) (\<lambda>f1.
     bind_prog (lift_err (format_card (snd hand))) (\<lambda>f2.
     bind_prog (py_print (''Preflop: '' @ f1 @ '' '' @ f2)) (\<lambda>_.
     bind_prog (wait_prog envs timeout) (\<lambda>_.
     bind_prog (lift_err (format_cards (take 3 board))) (\<lambda>flop.
     bind_prog (py_print (''Flop:    '' @ flop)) (\<lambda>_.
     bind_prog (wait_prog envs timeout) (\<lambda>_.
     bind_prog (lift_err (list_get board 3)) (\<lambda>turn.
     bind_prog (lift_err (format_card turn)) (\<lambda>ft.
     bind_prog (py_print (''Turn:    '' @ ft)) (\<lambda>_.
     bind_prog (wait_prog envs timeout) (\<lambda>_.
     bind_prog (lift_err (list_get board 4)) (\<lambda>river.
     bind_prog (lift_err (format_card river)) (\<lambda>fr.
     bind_prog (py_print (''River:   '' @ fr)) (\<lambda>_.
     bind_prog (wait_prog envs timeout) (\<lambda>_.
       return_prog ()))))))))))))))))"

definition next_seed :: "int option \<Rightarrow> int option" where
  \<comment> \<open>\<open>if seed is not None: seed += 1\<close>\<close>
  "next_seed seed = (case seed of None \<Rightarrow> None | Some s \<Rightarrow> Some (s + 1))"

text \<open>The loop \<open>for i in range(1, args.hands + 1)\<close>, over the list of its indices.\<close>

fun main_loop ::
  "'g random_module \<Rightarrow> (nat \<Rightarrow> wait_env) \<Rightarrow> int \<Rightarrow> int list \<Rightarrow> int option \<Rightarrow> ('g, unit) prog" where
  "main_loop R envs timeout [] seed = return_prog ()"
| "main_loop R envs timeout (i # rest) seed =
     bind_prog (deal_prog R seed) (\<lambda>(hand, board).
     bind_prog (reveal envs timeout i hand board) (\<lambda>_.
       main_loop R envs timeout rest (next_seed seed)))"

text \<open>\<open>main\<close>, from the parsed arguments \<open>hands\<close>, \<open>--seed\<close> and \<open>--timeout\<close> on.\<close>

definition main ::
  "'g random_module \<Rightarrow> (nat \<Rightarrow> wait_env) \<Rightarrow> int \<Rightarrow> int option \<Rightarrow> int \<Rightarrow> ('g, unit) prog" where
  "main R envs hands seed timeout =
     bind_prog (main_loop R envs timeout [1..hands] seed) (\<lambda>_.
       py_print (nl # ''Done. Good session.''))"

text \<open>
  The guard at the end of the script: \<open>main\<close> under \<open>except KeyboardInterrupt\<close>. The
  result is the exit status of the process and the final state.
\<close>

definition program ::
  "'g random_module \<Rightarrow> (nat \<Rightarrow> wait_env) \<Rightarrow> int \<Rightarrow> int option \<Rightarrow> int \<Rightarrow> 'g world
     \<Rightarrow> (int \<times> 'g world) option" where
  "program R envs hands seed timeout w =
     (case main R envs hands seed timeout w of
        None \<Rightarrow> None
      | Some (Inr u, w') \<Rightarrow> Some (0, w')
      | Some (Inl e, w') \<Rightarrow>
          if e = KeyboardInterrupt
          then Some (0, w'\<lparr>stdout := stdout w' @ [nl # ''Stopped by user.'' @ [nl]]\<rparr>)
          else Some (1, w'))"

section \<open>The rule tables of the specification\<close>

text \<open>
  The range as the specification words it, over face values (2 to 10, J = 11, Q = 12,
  K = 13, A = 14), written independently of the code so that the two can be compared.
\<close>

definition face_value :: "char \<Rightarrow> nat" where
  "face_value r =
     (if r = CHR ''2'' then 2 else if r = CHR ''3'' then 3 else if r = CHR ''4'' then 4
      else if r = CHR ''5'' then 5 else if r = CHR ''6'' then 6 else if r = CHR ''7'' then 7
      else if r = CHR ''8'' then 8 else if r = CHR ''9'' then 9 else if r = CHR ''T'' then 10
      else if r = CHR ''J'' then 11 else if r = CHR ''Q'' then 12 else if r = CHR ''K'' then 13
      else if r = CHR ''A'' then 14 else 0)"

definition spec_suited :: "nat \<Rightarrow> nat \<Rightarrow> bool" where
  "spec_suited hi lo =
     (hi = 14 \<or> hi = 13 \<or> hi = 12
      \<or> (hi = 11 \<and> lo \<ge> 4)
      \<or> ((hi = 10 \<or> hi = 9) \<and> lo \<ge> 6)
      \<or> ((hi = 8 \<or> hi = 7) \<and> lo \<ge> 5)
      \<or> (hi = 6 \<and> lo \<ge> 4)
      \<or> (hi = 5 \<and> lo \<ge> 3)
      \<or> (hi = 4 \<and> lo = 3))"

definition spec_offsuit :: "nat \<Rightarrow> nat \<Rightarrow> bool" where
  "spec_offsuit hi lo =
     ((hi = 14 \<and> lo \<ge> 3)
      \<or> ((hi = 13 \<or> hi = 12 \<or> hi = 11 \<or> hi = 10) \<and> lo \<ge> 8)
      \<or> (hi = 9 \<and> lo = 8))"

definition spec_in_range :: "string \<Rightarrow> string \<Rightarrow> bool" where
  "spec_in_range card1 card2 =
     (let a = face_value (card1 ! 0);
          b = face_value (card2 ! 0);
          hi = max a b;
          lo = min a b
      in if a = b then True
         else if card1 ! 1 = card2 ! 1 then spec_suited hi lo
         else spec_offsuit hi lo)"

text \<open>A card is well formed when it is one of the 52 cards of the deck.\<close>

definition well_formed :: "string \<Rightarrow> bool" where
  "well_formed c = (c \<in> set fresh_deck)"

section \<open>Notions used to state the properties\<close>

text \<open>What is asked of \<open>random.shuffle\<close>: the result is a permutation of the list.\<close>

definition permuting :: "'g random_module \<Rightarrow> bool" where
  "permuting R = (\<forall>g xs. mset (fst (rnd_shuffle R g xs)) = mset xs)"

text \<open>
  The state of the generator before attempt \<open>k\<close> of the rejection loop, counted from 0,
  and whether the shuffle made in a state puts a hand of the range on top of the deck.
\<close>

fun attempt_state :: "'g random_module \<Rightarrow> 'g \<Rightarrow> nat \<Rightarrow> 'g" where
  "attempt_state R g 0 = g"
| "attempt_state R g (Suc k) = attempt_state R (snd (rnd_shuffle R g fresh_deck)) k"

definition accepted :: "'g random_module \<Rightarrow> 'g \<Rightarrow> bool" where
  "accepted R g =
     (case fst (rnd_shuffle R g fresh_deck) of
        c1 # c2 # rest \<Rightarrow> is_btn_open_45 c1 c2 = Inr True
      | _ \<Rightarrow> False)"

text \<open>
  The lines of a session: what \<open>main\<close> prints. The countdown and the blanking of it are
  the only texts that start with a carriage return.
\<close>

definition street_lines :: "string list \<Rightarrow> string list" where
  "street_lines out = filter (\<lambda>s. take 1 s \<noteq> [cr]) out"

definition card_text :: "string \<Rightarrow> string" where
  "card_text c = (case format_card c of Inl e \<Rightarrow> [] | Inr s \<Rightarrow> s)"

text \<open>Two states that agree on everything but the countdown texts.\<close>

definition same_session :: "'g world \<Rightarrow> 'g world \<Rightarrow> bool" where
  "same_session w1 w2 =
     (rng w1 = rng w2 \<and> waits w1 = waits w2
      \<and> street_lines (stdout w1) = street_lines (stdout w2))"

text \<open>
  Two results are related when both are the run that never returns, or both are the same
  exception, or both are values related by \<open>Q\<close>, and in the last two cases the final
  states agree as above. Two statements are related when they take such states to
  related results.
\<close>

definition res_rel ::
  "('a \<Rightarrow> 'a \<Rightarrow> bool) \<Rightarrow> ((py_error + 'a) \<times> 'g world) option
     \<Rightarrow> ((py_error + 'a) \<times> 'g world) option \<Rightarrow> bool" where
  "res_rel Q r1 r2 =
     (case r1 of
        None \<Rightarrow> r2 = None
      | Some (x1, w1') \<Rightarrow>
          (\<exists>x2 w2'. r2 = Some (x2, w2') \<and> same_session w1' w2'
             \<and> (case x1 of
                    Inl e \<Rightarrow> x2 = Inl e
                  | Inr v1 \<Rightarrow> (\<exists>v2. x2 = Inr v2 \<and> Q v1 v2))))"

definition rel_prog :: "('a \<Rightarrow> 'a \<Rightarrow> bool) \<Rightarrow> ('g, 'a) prog \<Rightarrow> ('g, 'a) prog \<Rightarrow> bool" where
  "rel_prog Q m1 m2 = (\<forall>w1 w2. same_session w1 w2 \<longrightarrow> res_rel Q (m1 w1) (m2 w2))"



text \<open>
  The deals of a session one after the other, with the seed counted up as \<open>main\<close> does:
  \<open>None\<close> when one of them does not return a hand.
\<close>

fun dealt_hands ::
  "'g random_module \<Rightarrow> int list \<Rightarrow> int option \<Rightarrow> 'g
     \<Rightarrow> (((string \<times> string) \<times> string list) list \<times> 'g) option" where
  "dealt_hands R [] seed g = Some ([], g)"
| "dealt_hands R (i # rest) seed g =
     (case deal_btn_open_and_board R seed g of
        Some (Inr d, g') \<Rightarrow>
          (case dealt_hands R rest (next_seed seed) g' of
             Some (ds, g'') \<Rightarrow> Some (d # ds, g'')
           | None \<Rightarrow> None)
      | _ \<Rightarrow> None)"

text \<open>
  What hand number \<open>i\<close> writes when each of its four waits writes the blanking text
  only, and what the hands of a session write then.
\<close>

definition hand_text :: "int \<Rightarrow> (string \<times> string) \<times> string list \<Rightarrow> string list" where
  "hand_text i d =
     [nl # ''Hand '' @ str_int i @ '':'' @ [nl],
      ''Preflop: '' @ card_text (fst (fst d)) @ '' '' @ card_text (snd (fst d)) @ [nl],
      clear_text,
      ''Flop:    '' @ card_text (snd d ! 0) @ '' '' @ card_text (snd d ! 1) @ '' ''
        @ card_text (snd d ! 2) @ [nl],
      clear_text,
      ''Turn:    '' @ card_text (snd d ! 3) @ [nl],
      clear_text,
      ''River:   '' @ card_text (snd d ! 4) @ [nl],
      clear_text]"

fun hands_text :: "int list \<Rightarrow> ((string \<times> string) \<times> string list) list \<Rightarrow> string list" where
  "hands_text (i # rest) (d # ds) = hand_text i d @ hands_text rest ds"
| "hands_text hs ds = []"

section \<open>Concrete inputs\<close>

text \<open>
  A generator for running the model: its state is a counter, the seed sets the counter,
  and a shuffle rotates the list by the counter and increments it.
\<close>

definition demo_random :: "nat random_module" where
  "demo_random =
     \<lparr>rnd_seed = (\<lambda>s. nat s), rnd_shuffle = (\<lambda>g xs. (drop g xs @ take g xs, Suc g))\<rparr>"

definition new_world :: "nat world" where
  "new_world = \<lparr>rng = 0, stdout = [], waits = 0\<rparr>"

text \<open>A clock that advances by 250 seconds between two readings.\<close>

definition ticking :: "nat \<Rightarrow> real" where
  "ticking n = 250 * real n"

text \<open>
  On a terminal: nothing is typed; Ctrl-C is typed in the first round; the space bar is
  pressed in the first round. Without a terminal: SIGINT arrives in the first round;
  nothing happens and the clock stands still.
\<close>

definition timeout_env :: wait_env where
  "timeout_env = \<lparr>stdin = Tty, clock = ticking, keys = (\<lambda>k. []), sigint = None\<rparr>"

definition ctrl_c_env :: wait_env where
  "ctrl_c_env =
     \<lparr>stdin = Tty, clock = ticking, keys = (\<lambda>k. if k = 0 then [CHR 0x03] else []),
      sigint = None\<rparr>"

definition space_env :: wait_env where
  "space_env =
     \<lparr>stdin = Tty, clock = ticking, keys = (\<lambda>k. if k = 0 then '' '' else []),
      sigint = None\<rparr>"

definition sigint_env :: wait_env where
  "sigint_env = \<lparr>stdin = NotATty, clock = ticking, keys = (\<lambda>k. []), sigint = Some 0\<rparr>"

definition no_terminal_env :: wait_env where
  "no_terminal_env = \<lparr>stdin = NoFileno, clock = (\<lambda>n. 0), keys = (\<lambda>k. []), sigint = None\<rparr>"

text \<open>
  Two waits that write the same texts and return different answers: on a clock that
  advances by 100 seconds the space bar is pressed in the second round; on a clock that
  jumps past the timeout after the first round nothing is typed.
\<close>

definition late_key_env :: wait_env where
  "late_key_env =
     \<lparr>stdin = Tty, clock = (\<lambda>n. 100 * real n), keys = (\<lambda>k. if k = 1 then '' '' else []),
      sigint = None\<rparr>"

definition short_clock_env :: wait_env where
  "short_clock_env =
     \<lparr>stdin = Tty, clock = (\<lambda>n. if n < 3 then 100 * real n else 700), keys = (\<lambda>k. []),
      sigint = None\<rparr>"

text \<open>The lines of the one-hand session dealt by \<open>demo_random\<close> from the seed 3.\<close>

definition demo_lines :: "string list" where
  "demo_lines =
     [nl # ''Hand 1:'' @ [nl],
      ''Preflop: '' @ card_text ''3s'' @ '' '' @ card_text ''3h'' @ [nl],
      ''Flop:    '' @ card_text ''3d'' @ '' '' @ card_text ''3c'' @ '' '' @ card_text ''4s'' @ [nl],
      ''Turn:    '' @ card_text ''4h'' @ [nl],
      ''River:   '' @ card_text ''4d'' @ [nl],
      nl # ''Done. Good session.'' @ [nl]]"

section \<open>Facts about the range logic\<close>

lemma RANKS_cases:
  "r \<in> set RANKS \<longleftrightarrow>
     r = CHR ''2'' \<or> r = CHR ''3'' \<or> r = CHR ''4'' \<or> r = CHR ''5'' \<or> r = CHR ''6''
     \<or> r = CHR ''7'' \<or> r = CHR ''8'' \<or> r = CHR ''9'' \<or> r = CHR ''T'' \<or> r = CHR ''J''
     \<or> r = CHR ''Q'' \<or> r = CHR ''K'' \<or> r = CHR ''A''"
  by (simp add: RANKS_def)

lemma rank_value_simps:
  "rank_value (CHR ''2'') = Inr 0" "rank_value (CHR ''3'') = Inr 1"
  "rank_value (CHR ''4'') = Inr 2" "rank_value (CHR ''5'') = Inr 3"
  "rank_value (CHR ''6'') = Inr 4" "rank_value (CHR ''7'') = Inr 5"
  "rank_value (CHR ''8'') = Inr 6" "rank_value (CHR ''9'') = Inr 7"
  "rank_value (CHR ''T'') = Inr 8" "rank_value (CHR ''J'') = Inr 9"
  "rank_value (CHR ''Q'') = Inr 10" "rank_value (CHR ''K'') = Inr 11"
  "rank_value (CHR ''A'') = Inr 12"
  by (simp_all add: rank_value_def RANKS_def)

lemma str_index_absent: "c \<notin> set s \<Longrightarrow> str_index s c = Inl ValueError"
  by (induction s) auto

lemma str_index_present: "c \<in> set s \<Longrightarrow> \<exists>n. str_index s c = Inr n"
  by (induction s) auto

lemma well_formed_iff:
  "well_formed c \<longleftrightarrow> (\<exists>r s. c = [r, s] \<and> r \<in> set RANKS \<and> s \<in> set SUITS)"
  by (auto simp: well_formed_def fresh_deck_def)

text \<open>The code's classification of two cards with well-formed ranks, whatever the suits.\<close>

lemma is_btn_open_45_table:
  assumes "r1 \<in> set RANKS" and "r2 \<in> set RANKS"
  shows "is_btn_open_45 [r1, s1] [r2, s2] = Inr (spec_in_range [r1, s1] [r2, s2])"
proof (cases "s1 = s2")
  case True
  from assms show ?thesis
    unfolding RANKS_cases
    by (elim disjE; simp add: True is_btn_open_45_def normalize_cards_def str_get_def
          in_suited_rules_def rank_value_simps spec_in_range_def face_value_def
          spec_suited_def)
next
  case False
  from assms show ?thesis
    unfolding RANKS_cases
    by (elim disjE; simp add: False is_btn_open_45_def normalize_cards_def str_get_def
          in_offsuit_rules_def ge_rank_def rank_value_simps spec_in_range_def face_value_def
          spec_offsuit_def)
qed

lemma is_btn_open_45_bad_rank:
  assumes "r1 \<notin> set RANKS \<or> r2 \<notin> set RANKS"
  shows "is_btn_open_45 [r1, s1] [r2, s2] = Inl ValueError"
proof (cases "r1 \<in> set RANKS")
  case True
  then obtain n where "rank_value r1 = Inr n"
    using str_index_present by (auto simp: rank_value_def)
  moreover from True assms have "rank_value r2 = Inl ValueError"
    by (simp add: rank_value_def str_index_absent)
  ultimately show ?thesis
    by (simp add: is_btn_open_45_def normalize_cards_def str_get_def)
next
  case False
  then have "rank_value r1 = Inl ValueError"
    by (simp add: rank_value_def str_index_absent)
  then show ?thesis
    by (simp add: is_btn_open_45_def normalize_cards_def str_get_def)
qed

lemma spec_in_range_commute: "spec_in_range c1 c2 = spec_in_range c2 c1"
  by (auto simp: spec_in_range_def Let_def max.commute min.commute)

lemma fresh_deck_52: "length fresh_deck = 52 \<and> distinct fresh_deck"
  by (simp add: fresh_deck_def RANKS_def SUITS_def)

text \<open>The deck yields 1326 unordered two-card hands.\<close>

lemma hands_count: "card {h. h \<subseteq> set fresh_deck \<and> card h = 2} = 1326"
proof -
  have "card (set fresh_deck) = 52"
    using fresh_deck_52 by (simp add: distinct_card)
  then have "card {h. h \<subseteq> set fresh_deck \<and> card h = 2} = 52 choose 2"
    by (simp add: n_subsets)
  also have "(52::nat) choose 2 = 1326"
    by (simp add: choose_two)
  finally show ?thesis .
qed

section \<open>The range evaluator against its specification\<close>

text \<open>
  C1. For every hand of two distinct well-formed cards (in either order, so for each of
  the 1326 unordered hands counted by \<open>hands_count\<close>), \<open>is_btn_open_45\<close> raises nothing
  and returns the boolean that the rule tables of the specification prescribe: pairs
  always, suited hands by the suited thresholds, offsuit hands by the offsuit thresholds.
\<close>

theorem is_btn_open_45_matches_tables:
  assumes "well_formed c1" and "well_formed c2" and "c1 \<noteq> c2"
  shows "is_btn_open_45 c1 c2 = Inr (spec_in_range c1 c2)"
  using assms by (auto simp: well_formed_iff is_btn_open_45_table)

theorem is_btn_open_45_matches_tables_witness:
  "well_formed ''Js'' \<and> well_formed ''3s'' \<and> ''Js'' \<noteq> ''3s''
   \<and> is_btn_open_45 ''Js'' ''3s'' = Inr False"
proof -
  have wf: "well_formed ''Js''" "well_formed ''3s''"
    by (simp_all add: well_formed_iff RANKS_def SUITS_def)
  have ne: "''Js'' \<noteq> ''3s''" by simp
  show ?thesis
    using wf ne is_btn_open_45_matches_tables [OF wf ne]
    by (simp add: spec_in_range_def face_value_def spec_suited_def)
qed

text \<open>
  C3. Two distinct well-formed cards of equal rank (a pocket pair) are in range,
  whatever their suits.
\<close>

theorem pocket_pair_in_range:
  assumes "well_formed c1" and "well_formed c2" and "c1 \<noteq> c2" and "c1 ! 0 = c2 ! 0"
  shows "is_btn_open_45 c1 c2 = Inr True"
  using assms by (auto simp: well_formed_iff is_btn_open_45_table spec_in_range_def)

theorem pocket_pair_in_range_witness:
  "well_formed ''2s'' \<and> well_formed ''2c'' \<and> ''2s'' \<noteq> ''2c'' \<and> ''2s'' ! 0 = ''2c'' ! 0
   \<and> is_btn_open_45 ''2s'' ''2c'' = Inr True"
proof -
  have wf: "well_formed ''2s''" "well_formed ''2c''"
    by (simp_all add: well_formed_iff RANKS_def SUITS_def)
  have ne: "''2s'' \<noteq> ''2c''" by simp
  have eq: "''2s'' ! 0 = ''2c'' ! 0" by simp
  show ?thesis
    using wf ne eq pocket_pair_in_range [OF wf ne eq] by simp
qed

text \<open>
  C5, as the claim states it, fails: the suit characters are only compared with each
  other, never validated. The two-character strings \<open>Ax\<close> and \<open>Kx\<close> carry the malformed
  suit character \<open>x\<close>, and the evaluator returns \<open>True\<close> for them instead of raising.
\<close>

theorem malformed_suit_counterexample:
  "length ''Ax'' = 2 \<and> length ''Kx'' = 2 \<and> CHR ''x'' \<notin> set SUITS
   \<and> is_btn_open_45 ''Ax'' ''Kx'' = Inr True"
  by (simp add: SUITS_def is_btn_open_45_def normalize_cards_def str_get_def
      rank_value_simps in_suited_rules_def)

text \<open>
  C5, amended. On two-character strings the evaluator raises exactly when a rank
  character is malformed, and then it raises ValueError; otherwise, whatever the suit
  characters are, it returns the boolean of the rule tables. In particular it returns a
  boolean for all well-formed cards. The model is a function of its two arguments, so
  there is no side effect.
\<close>

theorem is_btn_open_45_failure_modes:
  "is_btn_open_45 [r1, s1] [r2, s2] =
     (if r1 \<in> set RANKS \<and> r2 \<in> set RANKS
      then Inr (spec_in_range [r1, s1] [r2, s2]) else Inl ValueError)"
  using is_btn_open_45_table [of r1 r2 s1 s2] is_btn_open_45_bad_rank [of r1 r2 s1 s2]
  by auto

theorem is_btn_open_45_failure_modes_witness:
  "is_btn_open_45 ''1s'' ''Kd'' = Inl ValueError \<and> is_btn_open_45 ''Ks'' ''7d'' = Inr False"
  using is_btn_open_45_failure_modes [of "CHR ''1''" "CHR ''s''" "CHR ''K''" "CHR ''d''"]
    is_btn_open_45_failure_modes [of "CHR ''K''" "CHR ''s''" "CHR ''7''" "CHR ''d''"]
  by (simp add: RANKS_def spec_in_range_def face_value_def spec_offsuit_def)

text \<open>
  C9. The evaluator is symmetric in its two arguments on distinct well-formed cards.
\<close>

theorem is_btn_open_45_symmetric:
  assumes "well_formed c1" and "well_formed c2" and "c1 \<noteq> c2"
  shows "is_btn_open_45 c1 c2 = is_btn_open_45 c2 c1"
  using assms spec_in_range_commute [of c1 c2]
  by (auto simp: well_formed_iff is_btn_open_45_table)

theorem is_btn_open_45_symmetric_witness:
  "well_formed ''8h'' \<and> well_formed ''Td'' \<and> ''8h'' \<noteq> ''Td''
   \<and> is_btn_open_45 ''8h'' ''Td'' = is_btn_open_45 ''Td'' ''8h''"
proof -
  have wf: "well_formed ''8h''" "well_formed ''Td''"
    by (simp_all add: well_formed_iff RANKS_def SUITS_def)
  have ne: "''8h'' \<noteq> ''Td''" by simp
  show ?thesis
    using wf ne is_btn_open_45_symmetric [OF wf ne] by simp
qed

text \<open>
  C10. Two well-formed hands with the same multiset of ranks and the same suited flag
  are classified alike: which suits they are never matters.
\<close>

theorem is_btn_open_45_ranks_and_suitedness_only:
  assumes "well_formed c1" and "well_formed c2" and "well_formed d1" and "well_formed d2"
    and "{#c1 ! 0, c2 ! 0#} = {#d1 ! 0, d2 ! 0#}"
    and "(c1 ! 1 = c2 ! 1) = (d1 ! 1 = d2 ! 1)"
  shows "is_btn_open_45 c1 c2 = is_btn_open_45 d1 d2"
proof -
  from assms(5)
  have "(c1 ! 0 = d1 ! 0 \<and> c2 ! 0 = d2 ! 0) \<or> (c1 ! 0 = d2 ! 0 \<and> c2 ! 0 = d1 ! 0)"
    by (auto simp: add_eq_conv_ex)
  then have "spec_in_range c1 c2 = spec_in_range d1 d2"
    using assms(6) by (auto simp: spec_in_range_def Let_def max.commute min.commute)
  then show ?thesis
    using assms(1-4) by (auto simp: well_formed_iff is_btn_open_45_table)
qed

theorem is_btn_open_45_ranks_and_suitedness_only_witness:
  "well_formed ''9s'' \<and> well_formed ''8h'' \<and> well_formed ''8d'' \<and> well_formed ''9c''
   \<and> {#''9s'' ! 0, ''8h'' ! 0#} = {#''8d'' ! 0, ''9c'' ! 0#}
   \<and> (''9s'' ! 1 = ''8h'' ! 1) = (''8d'' ! 1 = ''9c'' ! 1)
   \<and> is_btn_open_45 ''9s'' ''8h'' = is_btn_open_45 ''8d'' ''9c''"
proof -
  have wf: "well_formed ''9s''" "well_formed ''8h''" "well_formed ''8d''" "well_formed ''9c''"
    by (simp_all add: well_formed_iff RANKS_def SUITS_def)
  have rk: "{#''9s'' ! 0, ''8h'' ! 0#} = {#''8d'' ! 0, ''9c'' ! 0#}" by simp
  have su: "(''9s'' ! 1 = ''8h'' ! 1) = (''8d'' ! 1 = ''9c'' ! 1)" by simp
  show ?thesis
    using wf rk su is_btn_open_45_ranks_and_suitedness_only [OF wf rk su] by simp
qed

section \<open>The dealer\<close>

lemma shuffled_deck:
  assumes "permuting R" and "rnd_shuffle R g fresh_deck = (deck, g')"
  shows "length deck = 52" and "distinct deck" and "set deck = set fresh_deck"
proof -
  from assms have m: "mset deck = mset fresh_deck"
    unfolding permuting_def by (metis fst_conv)
  from m show "length deck = 52"
    using fresh_deck_52 mset_eq_length by fastforce
  from m show "distinct deck"
    using fresh_deck_52 mset_eq_imp_distinct_iff by blast
  from m show "set deck = set fresh_deck"
    by (rule mset_eq_setD)
qed

lemma take_7_split:
  assumes "2 \<le> length deck"
  shows "deck ! 0 # deck ! 1 # take 5 (drop 2 deck) = take 7 deck"
proof -
  from assms obtain a b rest where "deck = a # b # rest"
    by (cases deck; cases "tl deck") auto
  then show ?thesis by simp
qed

lemma is_btn_open_45_well_formed:
  assumes "c1 \<in> set fresh_deck" and "c2 \<in> set fresh_deck"
  shows "is_btn_open_45 c1 c2 = Inr (spec_in_range c1 c2)"
  using assms by (auto simp: well_formed_iff [unfolded well_formed_def] is_btn_open_45_table)

text \<open>One attempt of the loop, for a generator that permutes.\<close>

lemma deal_loop_attempt:
  assumes "permuting R" and "rnd_shuffle R g fresh_deck = (deck, g')"
  shows "deal_loop R g =
           (if spec_in_range (deck ! 0) (deck ! 1)
            then Some (Inr ((deck ! 0, deck ! 1), take 5 (drop 2 deck)), g')
            else deal_loop R g')"
proof -
  have len: "length deck = 52" and st: "set deck = set fresh_deck"
    using shuffled_deck [OF assms] by simp_all
  have "deck ! 0 \<in> set fresh_deck" "deck ! 1 \<in> set fresh_deck"
    using len st nth_mem [of 0 deck] nth_mem [of 1 deck] by simp_all
  then have "is_btn_open_45 (deck ! 0) (deck ! 1) = Inr (spec_in_range (deck ! 0) (deck ! 1))"
    by (rule is_btn_open_45_well_formed)
  moreover have "deck \<noteq> []"
    using len by auto
  ultimately show ?thesis
    by (subst deal_loop.simps) (simp add: assms(2) list_get_def len)
qed

lemma accepted_iff:
  assumes "permuting R" and "rnd_shuffle R g fresh_deck = (deck, g')"
  shows "accepted R g = spec_in_range (deck ! 0) (deck ! 1)"
proof -
  have len: "length deck = 52" and st: "set deck = set fresh_deck"
    using shuffled_deck [OF assms] by simp_all
  then obtain a b rest where d: "deck = a # b # rest"
    by (cases deck; cases "tl deck") auto
  have "a \<in> set fresh_deck" "b \<in> set fresh_deck"
    using st d by auto
  then have "is_btn_open_45 a b = Inr (spec_in_range a b)"
    by (rule is_btn_open_45_well_formed)
  then show ?thesis
    by (simp add: accepted_def assms(2) d)
qed

lemma dealt_cards:
  assumes "permuting R" and "rnd_shuffle R g fresh_deck = (deck, g')"
    and "spec_in_range (deck ! 0) (deck ! 1)"
  shows "length (take 5 (drop 2 deck)) = 5"
    and "distinct (deck ! 0 # deck ! 1 # take 5 (drop 2 deck))"
    and "set (deck ! 0 # deck ! 1 # take 5 (drop 2 deck)) \<subseteq> set fresh_deck"
    and "is_btn_open_45 (deck ! 0) (deck ! 1) = Inr True"
proof -
  have len: "length deck = 52" and di: "distinct deck" and st: "set deck = set fresh_deck"
    using shuffled_deck [OF assms(1,2)] by simp_all
  have sp: "deck ! 0 # deck ! 1 # take 5 (drop 2 deck) = take 7 deck"
    using len by (intro take_7_split) simp
  show "length (take 5 (drop 2 deck)) = 5"
    using len by simp
  show "distinct (deck ! 0 # deck ! 1 # take 5 (drop 2 deck))"
    unfolding sp using di by (rule distinct_take)
  show "set (deck ! 0 # deck ! 1 # take 5 (drop 2 deck)) \<subseteq> set fresh_deck"
    unfolding sp using st set_take_subset [of 7 deck] by simp
  have "deck ! 0 \<in> set fresh_deck" "deck ! 1 \<in> set fresh_deck"
    using len st nth_mem [of 0 deck] nth_mem [of 1 deck] by simp_all
  then show "is_btn_open_45 (deck ! 0) (deck ! 1) = Inr True"
    using assms(3) by (simp add: is_btn_open_45_well_formed)
qed

lemma deal_loop_partial:
  assumes "deal_loop R g = Some y"
  shows "permuting R \<longrightarrow>
           (\<exists>c1 c2 board. fst y = Inr ((c1, c2), board) \<and> length board = 5
              \<and> distinct (c1 # c2 # board) \<and> set (c1 # c2 # board) \<subseteq> set fresh_deck
              \<and> is_btn_open_45 c1 c2 = Inr True)
           \<and> (\<exists>k. accepted R (attempt_state R g k))"
proof (rule deal_loop.raw_induct [where P = "\<lambda>R g y. permuting R \<longrightarrow>
           (\<exists>c1 c2 board. fst y = Inr ((c1, c2), board) \<and> length board = 5
              \<and> distinct (c1 # c2 # board) \<and> set (c1 # c2 # board) \<subseteq> set fresh_deck
              \<and> is_btn_open_45 c1 c2 = Inr True)
           \<and> (\<exists>k. accepted R (attempt_state R g k))", OF _ assms])
  fix loop :: "'a random_module \<Rightarrow> 'a \<Rightarrow> ((py_error + (string \<times> string) \<times> string list) \<times> 'a) option"
  fix R g y
  assume IH: "\<And>R g y. loop R g = Some y \<Longrightarrow> permuting R \<longrightarrow>
           (\<exists>c1 c2 board. fst y = Inr ((c1, c2), board) \<and> length board = 5
              \<and> distinct (c1 # c2 # board) \<and> set (c1 # c2 # board) \<subseteq> set fresh_deck
              \<and> is_btn_open_45 c1 c2 = Inr True)
           \<and> (\<exists>k. accepted R (attempt_state R g k))"
  assume body: "(case rnd_shuffle R g fresh_deck of (deck, g') \<Rightarrow>
        (case list_get deck 0 of Inl e \<Rightarrow> Some (Inl e, g') | Inr c1 \<Rightarrow>
        (case list_get deck 1 of Inl e \<Rightarrow> Some (Inl e, g') | Inr c2 \<Rightarrow>
        (case is_btn_open_45 c1 c2 of Inl e \<Rightarrow> Some (Inl e, g') | Inr ok \<Rightarrow>
           if ok then Some (Inr ((c1, c2), take 5 (drop 2 deck)), g')
           else loop R g')))) = Some y"
  show "permuting R \<longrightarrow>
           (\<exists>c1 c2 board. fst y = Inr ((c1, c2), board) \<and> length board = 5
              \<and> distinct (c1 # c2 # board) \<and> set (c1 # c2 # board) \<subseteq> set fresh_deck
              \<and> is_btn_open_45 c1 c2 = Inr True)
           \<and> (\<exists>k. accepted R (attempt_state R g k))"
  proof
    assume perm: "permuting R"
    obtain deck g' where s: "rnd_shuffle R g fresh_deck = (deck, g')"
      by (cases "rnd_shuffle R g fresh_deck")
    have len: "length deck = 52" and st: "set deck = set fresh_deck"
      using shuffled_deck [OF perm s] by simp_all
    have ne: "deck \<noteq> []"
      using len by auto
    have "deck ! 0 \<in> set fresh_deck" "deck ! 1 \<in> set fresh_deck"
      using len st nth_mem [of 0 deck] nth_mem [of 1 deck] by simp_all
    then have b: "is_btn_open_45 (deck ! 0) (deck ! 1) = Inr (spec_in_range (deck ! 0) (deck ! 1))"
      by (rule is_btn_open_45_well_formed)
    show "(\<exists>c1 c2 board. fst y = Inr ((c1, c2), board) \<and> length board = 5
              \<and> distinct (c1 # c2 # board) \<and> set (c1 # c2 # board) \<subseteq> set fresh_deck
              \<and> is_btn_open_45 c1 c2 = Inr True)
           \<and> (\<exists>k. accepted R (attempt_state R g k))"
    proof (cases "spec_in_range (deck ! 0) (deck ! 1)")
      case True
      with body b have "y = (Inr ((deck ! 0, deck ! 1), take 5 (drop 2 deck)), g')"
        by (simp add: s list_get_def len ne)
      then have "fst y = Inr ((deck ! 0, deck ! 1), take 5 (drop 2 deck))"
        by simp
      then have "\<exists>c1 c2 board. fst y = Inr ((c1, c2), board) \<and> length board = 5
              \<and> distinct (c1 # c2 # board) \<and> set (c1 # c2 # board) \<subseteq> set fresh_deck
              \<and> is_btn_open_45 c1 c2 = Inr True"
        using dealt_cards [OF perm s True] by blast
      moreover have "accepted R (attempt_state R g 0)"
        using True by (simp add: accepted_iff [OF perm s])
      ultimately show ?thesis
        by blast
    next
      case False
      with body b have "loop R g' = Some y"
        by (simp add: s list_get_def len ne)
      with IH perm obtain k where
        good: "\<exists>c1 c2 board. fst y = Inr ((c1, c2), board) \<and> length board = 5
              \<and> distinct (c1 # c2 # board) \<and> set (c1 # c2 # board) \<subseteq> set fresh_deck
              \<and> is_btn_open_45 c1 c2 = Inr True"
        and k: "accepted R (attempt_state R g' k)"
        by blast
      from k have "accepted R (attempt_state R g (Suc k))"
        by (simp add: s)
      with good show ?thesis
        by blast
    qed
  qed
qed

lemma deal_loop_returns:
  assumes "permuting R" and "accepted R (attempt_state R g k)"
  shows "deal_loop R g \<noteq> None"
  using assms(2)
proof (induction k arbitrary: g)
  case 0
  obtain deck g' where s: "rnd_shuffle R g fresh_deck = (deck, g')"
    by (cases "rnd_shuffle R g fresh_deck")
  from 0 show ?case
    by (simp add: deal_loop_attempt [OF assms(1) s] accepted_iff [OF assms(1) s])
next
  case (Suc k)
  obtain deck g' where s: "rnd_shuffle R g fresh_deck = (deck, g')"
    by (cases "rnd_shuffle R g fresh_deck")
  from Suc show ?case
    by (simp add: deal_loop_attempt [OF assms(1) s] s)
qed


lemma permuting_demo_random: "permuting demo_random"
proof -
  have "mset (drop g xs @ take g xs) = mset xs" for g and xs :: "string list"
    by (metis append_take_drop_id mset_append union_commute)
  then show ?thesis
    by (simp add: permuting_def demo_random_def)
qed

lemma fresh_deck_eval: "fresh_deck =
  [''2s'', ''2h'', ''2d'', ''2c'', ''3s'', ''3h'', ''3d'', ''3c'', ''4s'', ''4h'', ''4d'', ''4c'',
   ''5s'', ''5h'', ''5d'', ''5c'', ''6s'', ''6h'', ''6d'', ''6c'', ''7s'', ''7h'', ''7d'', ''7c'',
   ''8s'', ''8h'', ''8d'', ''8c'', ''9s'', ''9h'', ''9d'', ''9c'', ''Ts'', ''Th'', ''Td'', ''Tc'',
   ''Js'', ''Jh'', ''Jd'', ''Jc'', ''Qs'', ''Qh'', ''Qd'', ''Qc'', ''Ks'', ''Kh'', ''Kd'', ''Kc'',
   ''As'', ''Ah'', ''Ad'', ''Ac'']"
  by (simp add: fresh_deck_def RANKS_def SUITS_def)

text \<open>
  C2. For a generator whose shuffle permutes, with any seed or none: whenever
  \<open>deal_btn_open_and_board\<close> returns, it raises nothing and returns a hand of two cards and
  a board of five, the seven cards pairwise distinct and all of the 52-card deck, and the
  hand is in range for \<open>is_btn_open_45\<close>. The loop has no bound on its attempts: the call
  returns exactly when some attempt shuffles a hand of the range to the top.
\<close>

theorem deal_btn_open_and_board_correct:
  assumes "permuting R"
  shows "(\<forall>res g'. deal_btn_open_and_board R seed g = Some (res, g') \<longrightarrow>
            (\<exists>c1 c2 board. res = Inr ((c1, c2), board) \<and> length board = 5
               \<and> distinct (c1 # c2 # board) \<and> set (c1 # c2 # board) \<subseteq> set fresh_deck
               \<and> is_btn_open_45 c1 c2 = Inr True))
         \<and> ((deal_btn_open_and_board R seed g \<noteq> None)
              = (\<exists>k. accepted R (attempt_state R (seed_rng R seed g) k)))"
proof (intro conjI allI impI)
  fix res g'
  assume "deal_btn_open_and_board R seed g = Some (res, g')"
  then show "\<exists>c1 c2 board. res = Inr ((c1, c2), board) \<and> length board = 5
               \<and> distinct (c1 # c2 # board) \<and> set (c1 # c2 # board) \<subseteq> set fresh_deck
               \<and> is_btn_open_45 c1 c2 = Inr True"
    using deal_loop_partial [of R "seed_rng R seed g" "(res, g')"] assms
    by (simp add: deal_btn_open_and_board_def)
next
  show "(deal_btn_open_and_board R seed g \<noteq> None)
          = (\<exists>k. accepted R (attempt_state R (seed_rng R seed g) k))"
    using deal_loop_partial [of R "seed_rng R seed g"] deal_loop_returns [OF assms] assms
    unfolding deal_btn_open_and_board_def by blast
qed

lemma demo_deal_3:
  "deal_btn_open_and_board demo_random (Some 3) g =
     Some (Inr ((''3s'', ''3h''), [''3d'', ''3c'', ''4s'', ''4h'', ''4d'']), 5)"
proof -
  have a: "is_btn_open_45 ''2c'' ''3s'' = Inr False"
    by (simp add: is_btn_open_45_def normalize_cards_def str_get_def rank_value_simps
        in_offsuit_rules_def)
  have b: "is_btn_open_45 ''3s'' ''3h'' = Inr True"
    by (simp add: is_btn_open_45_def normalize_cards_def str_get_def rank_value_simps)
  have "deal_loop demo_random 3 = deal_loop demo_random 4"
    by (subst deal_loop.simps) (simp add: demo_random_def fresh_deck_eval list_get_def a)
  also have "\<dots> = Some (Inr ((''3s'', ''3h''), [''3d'', ''3c'', ''4s'', ''4h'', ''4d'']), 5)"
    by (subst deal_loop.simps) (simp add: demo_random_def fresh_deck_eval list_get_def b)
  finally show ?thesis
    by (simp add: deal_btn_open_and_board_def seed_rng_def demo_random_def)
qed

theorem deal_btn_open_and_board_correct_witness:
  "permuting demo_random
   \<and> deal_btn_open_and_board demo_random (Some 3) 0
       = Some (Inr ((''3s'', ''3h''), [''3d'', ''3c'', ''4s'', ''4h'', ''4d'']), 5)
   \<and> length [''3d'', ''3c'', ''4s'', ''4h'', ''4d''] = 5
   \<and> distinct [''3s'', ''3h'', ''3d'', ''3c'', ''4s'', ''4h'', ''4d'']
   \<and> is_btn_open_45 ''3s'' ''3h'' = Inr True
   \<and> (\<exists>k. accepted demo_random (attempt_state demo_random (seed_rng demo_random (Some 3) 0) k))"
  using deal_btn_open_and_board_correct [OF permuting_demo_random, of "Some 3" 0]
    permuting_demo_random demo_deal_3 [of 0]
  by auto

section \<open>Running the model\<close>

lemma wait_timeout_env:
  "wait_for_key_with_timeout timeout_env 600 out
     = Some (Inr False, out @ [countdown_text 100, clear_text])"
  unfolding wait_for_key_with_timeout_def
  apply (subst countdown.simps)
  apply (subst countdown.simps)
  apply (simp add: timeout_env_def ticking_def py_int_def check_keypress_def
      check_keypress_start_def)
  done

text \<open>
  Ctrl-C read by the watcher ends the watcher; the wait goes on to its timeout, as if
  nothing had been typed.
\<close>

lemma wait_ctrl_c_env:
  "wait_for_key_with_timeout ctrl_c_env 600 out
     = Some (Inr False, out @ [countdown_text 100, clear_text])"
  unfolding wait_for_key_with_timeout_def
  apply (subst countdown.simps)
  apply (subst countdown.simps)
  apply (simp add: ctrl_c_env_def ticking_def py_int_def check_keypress_def
      check_keypress_start_def cr_def nl_def)
  done

lemma watcher_ctrl_c:
  "check_keypress (check_keypress_start Tty, False) [CHR 0x03]
     = (Raised KeyboardInterrupt, False)"
  by (simp add: check_keypress_def check_keypress_start_def)

lemma wait_space_env:
  "wait_for_key_with_timeout space_env 600 out = Some (Inr True, out @ [clear_text])"
  unfolding wait_for_key_with_timeout_def
  apply (subst countdown.simps)
  apply (simp add: space_env_def ticking_def py_int_def check_keypress_def
      check_keypress_start_def cr_def nl_def)
  done

lemma wait_sigint_env:
  "wait_for_key_with_timeout sigint_env 600 out
     = Some (Inl KeyboardInterrupt, out @ [countdown_text 100])"
  unfolding wait_for_key_with_timeout_def
  apply (subst countdown.simps)
  apply (simp add: sigint_env_def ticking_def py_int_def check_keypress_def
      check_keypress_start_def)
  done

lemma format_card_well_formed:
  assumes "c \<in> set fresh_deck"
  shows "format_card c = Inr (card_text c)"
proof -
  from assms obtain r s where "c = [r, s]" and "s \<in> set SUITS"
    using well_formed_iff [of c] by (auto simp: well_formed_def)
  then show ?thesis
    by (auto simp: SUITS_def card_text_def format_card_def str_get_def dict_get_def
        SUIT_COLORS_def SUIT_SYMBOLS_def)
qed

lemma format_card_eval:
  "format_card ''3s'' = Inr (card_text ''3s'')"
  "format_card ''3h'' = Inr (card_text ''3h'')"
  "format_card ''3d'' = Inr (card_text ''3d'')"
  "format_card ''3c'' = Inr (card_text ''3c'')"
  "format_card ''4s'' = Inr (card_text ''4s'')"
  "format_card ''4h'' = Inr (card_text ''4h'')"
  "format_card ''4d'' = Inr (card_text ''4d'')"
  by (simp_all add: format_card_well_formed fresh_deck_eval)

lemma upto_1_1: "[1..1] = [1::int]"
  by (simp add: upto.simps)

lemmas session_eval =
  program_def main_def upto_1_1 bind_prog_def deal_prog_def demo_deal_3 new_world_def
  reveal_def py_print_def lift_err_def format_card_eval format_cards_def wait_prog_def
  list_get_def return_prog_def str_int_def

text \<open>The session of one hand in which every wait runs into its timeout.\<close>

lemma timeout_session:
  "main demo_random (\<lambda>n. timeout_env) 1 (Some 3) 600 new_world
     = Some (Inr (), \<lparr>rng = 5,
         stdout =
           [nl # ''Hand 1:'' @ [nl],
            ''Preflop: '' @ card_text ''3s'' @ '' '' @ card_text ''3h'' @ [nl],
            countdown_text 100, clear_text,
            ''Flop:    '' @ card_text ''3d'' @ '' '' @ card_text ''3c'' @ '' ''
              @ card_text ''4s'' @ [nl],
            countdown_text 100, clear_text,
            ''Turn:    '' @ card_text ''4h'' @ [nl],
            countdown_text 100, clear_text,
            ''River:   '' @ card_text ''4d'' @ [nl],
            countdown_text 100, clear_text,
            nl # ''Done. Good session.'' @ [nl]],
         waits = 4\<rparr>)"
  by (simp add: session_eval wait_timeout_env)

text \<open>The same session with the space bar pressed in every wait.\<close>

lemma space_session:
  "main demo_random (\<lambda>n. space_env) 1 (Some 3) 600 new_world
     = Some (Inr (), \<lparr>rng = 5,
         stdout =
           [nl # ''Hand 1:'' @ [nl],
            ''Preflop: '' @ card_text ''3s'' @ '' '' @ card_text ''3h'' @ [nl],
            clear_text,
            ''Flop:    '' @ card_text ''3d'' @ '' '' @ card_text ''3c'' @ '' ''
              @ card_text ''4s'' @ [nl],
            clear_text,
            ''Turn:    '' @ card_text ''4h'' @ [nl],
            clear_text,
            ''River:   '' @ card_text ''4d'' @ [nl],
            clear_text,
            nl # ''Done. Good session.'' @ [nl]],
         waits = 4\<rparr>)"
  by (simp add: session_eval wait_space_env)

text \<open>
  SIGINT in the main thread during the first wait: the exception leaves \<open>main\<close>, the guard
  prints its notice and the exit status is 0.
\<close>

lemma sigint_session:
  "program demo_random (\<lambda>n. sigint_env) 1 (Some 3) 600 new_world
     = Some (0, \<lparr>rng = 5,
         stdout =
           [nl # ''Hand 1:'' @ [nl],
            ''Preflop: '' @ card_text ''3s'' @ '' '' @ card_text ''3h'' @ [nl],
            countdown_text 100,
            nl # ''Stopped by user.'' @ [nl]],
         waits = 1\<rparr>)"
  by (simp add: session_eval wait_sigint_env)

lemma street_lines_append [simp]:
  "street_lines (out @ extra) = street_lines out @ street_lines extra"
  by (simp add: street_lines_def)

lemma street_lines_countdown_text [simp]: "street_lines [countdown_text r] = []"
  by (simp add: street_lines_def countdown_text_def)

lemma street_lines_clear_text [simp]: "street_lines [clear_text] = []"
  by (simp add: street_lines_def clear_text_def)

section \<open>The outcome of a wait does not reach the session\<close>

text \<open>The countdown writes nothing but countdown texts.\<close>

lemma countdown_street_lines:
  assumes "countdown env t start k st out = Some y"
  shows "street_lines (snd y) = street_lines out"
proof (rule countdown.raw_induct
    [where P = "\<lambda>env t start k st out y. street_lines (snd y) = street_lines out", OF _ assms])
  fix loop :: "wait_env \<Rightarrow> int \<Rightarrow> real \<Rightarrow> nat \<Rightarrow> watcher \<times> bool \<Rightarrow> string list
     \<Rightarrow> ((py_error + bool) \<times> string list) option"
  fix env t start k st out y
  assume IH: "\<And>env t start k st out y. loop env t start k st out = Some y
                \<Longrightarrow> street_lines (snd y) = street_lines out"
  assume body: "(if clock env (2 * k + 1) - start < of_int t then
        (let remaining = t - py_int (clock env (2 * k + 2) - start);
             st' = check_keypress st (keys env k)
         in if snd st' then Some (Inr True, out @ [clear_text])
            else if sigint env = Some k
              then Some (Inl KeyboardInterrupt, out @ [countdown_text remaining])
            else loop env t start (Suc k) st' (out @ [countdown_text remaining]))
      else Some (Inr False, out @ [clear_text])) = Some y"
  show "street_lines (snd y) = street_lines out"
  proof (cases "clock env (2 * k + 1) - start < of_int t")
    case False
    with body show ?thesis by auto
  next
    case True
    note running = True
    show ?thesis
    proof (cases "snd (check_keypress st (keys env k))")
      case True
      with body running show ?thesis by (auto simp: Let_def)
    next
      case False
      note no_key = False
      show ?thesis
      proof (cases "sigint env = Some k")
        case True
        with body running no_key show ?thesis by (auto simp: Let_def)
      next
        case False
        with body running no_key
        have "loop env t start (Suc k) (check_keypress st (keys env k))
                (out @ [countdown_text (t - py_int (clock env (2 * k + 2) - start))]) = Some y"
          by (simp add: Let_def)
        from IH [OF this] show ?thesis by simp
      qed
    qed
  qed
qed

lemma wait_prog_effect:
  assumes "wait_prog envs t w = Some (r, w')"
  shows "rng w' = rng w" and "waits w' = Suc (waits w)"
    and "street_lines (stdout w') = street_lines (stdout w)"
proof -
  from assms obtain out where
    c: "wait_for_key_with_timeout (envs (waits w)) t (stdout w) = Some (r, out)"
    and w': "w' = w\<lparr>stdout := out, waits := Suc (waits w)\<rparr>"
    by (auto simp: wait_prog_def split: option.splits)
  from w' show "rng w' = rng w" and "waits w' = Suc (waits w)" by simp_all
  from c have "street_lines out = street_lines (stdout w)"
    using countdown_street_lines [of "envs (waits w)" t _ 0 _ "stdout w" "(r, out)"]
    by (simp add: wait_for_key_with_timeout_def)
  with w' show "street_lines (stdout w') = street_lines (stdout w)" by simp
qed

lemma rel_bind:
  assumes "rel_prog Q m1 m2" and "\<And>x1 x2. Q x1 x2 \<Longrightarrow> rel_prog Q' (f1 x1) (f2 x2)"
  shows "rel_prog Q' (bind_prog m1 f1) (bind_prog m2 f2)"
  unfolding rel_prog_def
proof (intro allI impI)
  fix w1 w2 :: "'b world"
  assume "same_session w1 w2"
  with assms(1) have r: "res_rel Q (m1 w1) (m2 w2)"
    unfolding rel_prog_def by blast
  show "res_rel Q' (bind_prog m1 f1 w1) (bind_prog m2 f2 w2)"
  proof (cases "m1 w1")
    case None
    with r have "m2 w2 = None" by (simp add: res_rel_def)
    with None show ?thesis by (simp add: res_rel_def bind_prog_def)
  next
    case (Some a)
    obtain x1 w1' where a: "a = (x1, w1')" by (cases a)
    from r Some a obtain x2 w2' where
      m2: "m2 w2 = Some (x2, w2')" and s: "same_session w1' w2'"
      and x: "case x1 of Inl e \<Rightarrow> x2 = Inl e | Inr v1 \<Rightarrow> (\<exists>v2. x2 = Inr v2 \<and> Q v1 v2)"
      by (auto simp: res_rel_def)
    show ?thesis
    proof (cases x1)
      case (Inl e)
      with x have "x2 = Inl e" by simp
      with Some a m2 s Inl show ?thesis by (simp add: res_rel_def bind_prog_def)
    next
      case (Inr v1)
      with x obtain v2 where v2: "x2 = Inr v2" and q: "Q v1 v2" by auto
      from assms(2) [OF q] s have "res_rel Q' (f1 v1 w1') (f2 v2 w2')"
        unfolding rel_prog_def by blast
      with Some a m2 Inr v2 show ?thesis by (simp add: bind_prog_def)
    qed
  qed
qed

lemma rel_bind_eq:
  assumes "rel_prog (=) m1 m2" and "\<And>x. rel_prog Q' (f1 x) (f2 x)"
  shows "rel_prog Q' (bind_prog m1 f1) (bind_prog m2 f2)"
  using assms(1) by (rule rel_bind) (simp add: assms(2))

lemma rel_bind_any:
  assumes "rel_prog (\<lambda>_ _. True) m1 m2" and "\<And>x1 x2. rel_prog Q' (f1 x1) (f2 x2)"
  shows "rel_prog Q' (bind_prog m1 f1) (bind_prog m2 f2)"
  using assms(1) by (rule rel_bind) (simp add: assms(2))

lemma rel_return: "rel_prog (\<lambda>_ _. True) (return_prog x) (return_prog y)"
  by (simp add: rel_prog_def res_rel_def return_prog_def)

lemma rel_lift: "rel_prog (=) (lift_err r) (lift_err r)"
  by (cases r) (simp_all add: rel_prog_def res_rel_def lift_err_def)

lemma rel_print: "rel_prog (\<lambda>_ _. True) (py_print s) (py_print s)"
  by (simp add: rel_prog_def res_rel_def py_print_def same_session_def)

text \<open>
  Two waits that both return normally are related, whatever they meet, whatever they
  write and whichever of \<open>True\<close> and \<open>False\<close> each of them returns.
\<close>

lemma rel_wait:
  assumes "\<forall>n out. \<exists>b out'. wait_for_key_with_timeout (envs1 n) t out = Some (Inr b, out')"
    and "\<forall>n out. \<exists>b out'. wait_for_key_with_timeout (envs2 n) t out = Some (Inr b, out')"
  shows "rel_prog (\<lambda>_ _. True) (wait_prog envs1 t) (wait_prog envs2 t)"
  unfolding rel_prog_def
proof (intro allI impI)
  fix w1 w2 :: "'a world"
  assume s: "same_session w1 w2"
  from assms(1) obtain b1 out1 where
    "wait_for_key_with_timeout (envs1 (waits w1)) t (stdout w1) = Some (Inr b1, out1)"
    by blast
  then have r1: "wait_prog envs1 t w1
                   = Some (Inr b1, w1\<lparr>stdout := out1, waits := Suc (waits w1)\<rparr>)"
    by (simp add: wait_prog_def)
  from assms(2) obtain b2 out2 where
    "wait_for_key_with_timeout (envs2 (waits w2)) t (stdout w2) = Some (Inr b2, out2)"
    by blast
  then have r2: "wait_prog envs2 t w2
                   = Some (Inr b2, w2\<lparr>stdout := out2, waits := Suc (waits w2)\<rparr>)"
    by (simp add: wait_prog_def)
  from wait_prog_effect [OF r1] wait_prog_effect [OF r2] s
  have "same_session (w1\<lparr>stdout := out1, waits := Suc (waits w1)\<rparr>)
          (w2\<lparr>stdout := out2, waits := Suc (waits w2)\<rparr>)"
    by (simp add: same_session_def)
  with r1 r2 show "res_rel (\<lambda>_ _. True) (wait_prog envs1 t w1) (wait_prog envs2 t w2)"
    by (simp add: res_rel_def)
qed

lemma rel_deal: "rel_prog (=) (deal_prog R seed) (deal_prog R seed)"
proof -
  have "res_rel (=) (deal_prog R seed w1) (deal_prog R seed w2)"
    if "same_session w1 w2" for w1 w2 :: "'a world"
  proof (cases "deal_btn_open_and_board R seed (rng w2)")
    case None
    with that show ?thesis by (simp add: res_rel_def deal_prog_def same_session_def)
  next
    case (Some a)
    obtain x g' where "a = (x, g')" by (cases a)
    with Some that show ?thesis
      by (cases x) (simp_all add: res_rel_def deal_prog_def same_session_def)
  qed
  then show ?thesis unfolding rel_prog_def by blast
qed

lemma rel_reveal:
  assumes "\<forall>n out. \<exists>b out'. wait_for_key_with_timeout (envs1 n) t out = Some (Inr b, out')"
    and "\<forall>n out. \<exists>b out'. wait_for_key_with_timeout (envs2 n) t out = Some (Inr b, out')"
  shows "rel_prog (\<lambda>_ _. True) (reveal envs1 t i hand board) (reveal envs2 t i hand board)"
  unfolding reveal_def
  by (intro rel_bind_any [OF rel_print] rel_bind_any [OF rel_wait [OF assms]]
      rel_bind_eq [OF rel_lift] rel_return)

lemma rel_main_loop:
  assumes "\<forall>n out. \<exists>b out'. wait_for_key_with_timeout (envs1 n) t out = Some (Inr b, out')"
    and "\<forall>n out. \<exists>b out'. wait_for_key_with_timeout (envs2 n) t out = Some (Inr b, out')"
  shows "rel_prog (\<lambda>_ _. True) (main_loop R envs1 t hs seed) (main_loop R envs2 t hs seed)"
proof (induction hs arbitrary: seed)
  case Nil
  show ?case unfolding main_loop.simps by (rule rel_return)
next
  case (Cons i rest)
  have "rel_prog (\<lambda>_ _. True)
          (bind_prog (reveal envs1 t i (fst x) (snd x))
             (\<lambda>_. main_loop R envs1 t rest (next_seed seed)))
          (bind_prog (reveal envs2 t i (fst x) (snd x))
             (\<lambda>_. main_loop R envs2 t rest (next_seed seed)))" for x
    by (rule rel_bind_any [OF rel_reveal [OF assms]]) (rule Cons.IH)
  then show ?case
    unfolding main_loop.simps split_beta by (rule rel_bind_eq [OF rel_deal])
qed

lemma rel_main:
  assumes "\<forall>n out. \<exists>b out'. wait_for_key_with_timeout (envs1 n) t out = Some (Inr b, out')"
    and "\<forall>n out. \<exists>b out'. wait_for_key_with_timeout (envs2 n) t out = Some (Inr b, out')"
  shows "rel_prog (\<lambda>_ _. True) (main R envs1 hands seed t) (main R envs2 hands seed t)"
  unfolding main_def
  by (rule rel_bind_any [OF rel_main_loop [OF assms]]) (rule rel_print)

text \<open>Waits that write the same texts can be exchanged, whatever they return.\<close>

lemma wait_answer_dropped:
  assumes "\<forall>n out. \<exists>b1 b2 out'.
             wait_for_key_with_timeout (envs1 n) t out = Some (Inr b1, out')
             \<and> wait_for_key_with_timeout (envs2 n) t out = Some (Inr b2, out')"
  shows "bind_prog (wait_prog envs1 t) (\<lambda>_. K) = bind_prog (wait_prog envs2 t) (\<lambda>_. K)"
proof (rule ext)
  fix w :: "'a world"
  from assms obtain b1 b2 out' where
    "wait_for_key_with_timeout (envs1 (waits w)) t (stdout w) = Some (Inr b1, out')"
    "wait_for_key_with_timeout (envs2 (waits w)) t (stdout w) = Some (Inr b2, out')"
    by blast
  then show "bind_prog (wait_prog envs1 t) (\<lambda>_. K) w = bind_prog (wait_prog envs2 t) (\<lambda>_. K) w"
    by (simp add: bind_prog_def wait_prog_def)
qed

lemma reveal_same_texts:
  assumes "\<forall>n out. \<exists>b1 b2 out'.
             wait_for_key_with_timeout (envs1 n) t out = Some (Inr b1, out')
             \<and> wait_for_key_with_timeout (envs2 n) t out = Some (Inr b2, out')"
  shows "reveal envs1 t i hand board = reveal envs2 t i hand board"
  unfolding reveal_def by (simp only: wait_answer_dropped [OF assms])

lemma main_loop_same_texts:
  assumes "\<forall>n out. \<exists>b1 b2 out'.
             wait_for_key_with_timeout (envs1 n) t out = Some (Inr b1, out')
             \<and> wait_for_key_with_timeout (envs2 n) t out = Some (Inr b2, out')"
  shows "main_loop R envs1 t hs seed = main_loop R envs2 t hs seed"
  by (induction hs arbitrary: seed) (simp_all add: reveal_same_texts [OF assms])

text \<open>
  C7. Two runs of \<open>main\<close> with the same arguments, from states with the same generator,
  the same number of waits begun and the same lines, whose waits meet any two
  environments in which every wait returns normally (so that a wait of one run may
  return \<open>True\<close> on a key where the wait of the other returns \<open>False\<close> on its timeout).
  Then one run never returns exactly when the other never returns; and when one returns,
  with a value or with an exception, the other returns the same value or the same
  exception, with the same generator, the same number of waits begun and the same
  lines printed. If moreover the waits of the two runs write the same texts, so that
  the runs differ in nothing but the answers of the waits, the two runs are equal: the
  same result and the same state, the whole output included.
\<close>

theorem main_ignores_wait_outcome:
  assumes "\<forall>n out. \<exists>b out'. wait_for_key_with_timeout (envs1 n) timeout out = Some (Inr b, out')"
    and "\<forall>n out. \<exists>b out'. wait_for_key_with_timeout (envs2 n) timeout out = Some (Inr b, out')"
    and "rng w1 = rng w2" and "waits w1 = waits w2"
    and "street_lines (stdout w1) = street_lines (stdout w2)"
  shows "((main R envs1 hands seed timeout w1 = None)
            = (main R envs2 hands seed timeout w2 = None))
       \<and> (\<forall>x w1'. main R envs1 hands seed timeout w1 = Some (x, w1') \<longrightarrow>
            (\<exists>w2'. main R envs2 hands seed timeout w2 = Some (x, w2')
               \<and> rng w1' = rng w2' \<and> waits w1' = waits w2'
               \<and> street_lines (stdout w1') = street_lines (stdout w2')))
       \<and> ((\<forall>n out. map_option snd (wait_for_key_with_timeout (envs1 n) timeout out)
                     = map_option snd (wait_for_key_with_timeout (envs2 n) timeout out))
            \<longrightarrow> main R envs1 hands seed timeout w1 = main R envs2 hands seed timeout w1)"
proof (intro conjI allI impI)
  from assms(3-5) have "same_session w1 w2"
    by (simp add: same_session_def)
  with rel_main [OF assms(1,2)]
  have r: "res_rel (\<lambda>_ _. True) (main R envs1 hands seed timeout w1)
             (main R envs2 hands seed timeout w2)"
    unfolding rel_prog_def by blast
  show "(main R envs1 hands seed timeout w1 = None)
          = (main R envs2 hands seed timeout w2 = None)"
    using r by (auto simp: res_rel_def split: option.splits)
  show "\<exists>w2'. main R envs2 hands seed timeout w2 = Some (x, w2')
               \<and> rng w1' = rng w2' \<and> waits w1' = waits w2'
               \<and> street_lines (stdout w1') = street_lines (stdout w2')"
    if "main R envs1 hands seed timeout w1 = Some (x, w1')" for x w1'
    using r that by (cases x) (auto simp: res_rel_def same_session_def)
next
  assume same: "\<forall>n out. map_option snd (wait_for_key_with_timeout (envs1 n) timeout out)
                     = map_option snd (wait_for_key_with_timeout (envs2 n) timeout out)"
  have "\<exists>b1 b2 out'.
          wait_for_key_with_timeout (envs1 n) timeout out = Some (Inr b1, out')
          \<and> wait_for_key_with_timeout (envs2 n) timeout out = Some (Inr b2, out')" for n out
  proof -
    from assms(1) obtain b1 out1 where
      a: "wait_for_key_with_timeout (envs1 n) timeout out = Some (Inr b1, out1)" by blast
    from assms(2) obtain b2 out2 where
      b: "wait_for_key_with_timeout (envs2 n) timeout out = Some (Inr b2, out2)" by blast
    from same a b have "out1 = out2"
      by (metis option.simps(9) option.inject snd_conv)
    with a b show ?thesis by blast
  qed
  then have "main_loop R envs1 timeout hs seed = main_loop R envs2 timeout hs seed" for hs
    using main_loop_same_texts [of envs1 timeout envs2 R hs seed] by blast
  then show "main R envs1 hands seed timeout w1 = main R envs2 hands seed timeout w1"
    by (simp add: main_def)
qed


lemma wait_late_key_env:
  "wait_for_key_with_timeout late_key_env 600 out
     = Some (Inr True, out @ [countdown_text 400, clear_text])"
  unfolding wait_for_key_with_timeout_def
  apply (subst countdown.simps)
  apply (subst countdown.simps)
  apply (simp add: late_key_env_def py_int_def check_keypress_def check_keypress_start_def
      cr_def nl_def)
  done

lemma wait_short_clock_env:
  "wait_for_key_with_timeout short_clock_env 600 out
     = Some (Inr False, out @ [countdown_text 400, clear_text])"
  unfolding wait_for_key_with_timeout_def
  apply (subst countdown.simps)
  apply (subst countdown.simps)
  apply (simp add: short_clock_env_def py_int_def check_keypress_def check_keypress_start_def)
  done

lemma space_session_lines:
  "\<exists>w'. main demo_random (\<lambda>n. space_env) 1 (Some 3) 600 new_world = Some (Inr (), w')
     \<and> length (stdout w') = 10 \<and> street_lines (stdout w') = demo_lines"
  unfolding space_session
  by (simp add: street_lines_def demo_lines_def clear_text_def nl_def cr_def)

lemma timeout_session_lines:
  "\<exists>w'. main demo_random (\<lambda>n. timeout_env) 1 (Some 3) 600 new_world = Some (Inr (), w')
     \<and> length (stdout w') = 14 \<and> street_lines (stdout w') = demo_lines"
  unfolding timeout_session
  by (simp add: street_lines_def demo_lines_def clear_text_def countdown_text_def nl_def cr_def)

lemma late_key_session:
  "\<exists>w'. main demo_random (\<lambda>n. late_key_env) 1 (Some 3) 600 new_world = Some (Inr (), w')
     \<and> length (stdout w') = 14"
  by (simp add: session_eval wait_late_key_env)

theorem main_ignores_wait_outcome_witness:
  "(\<forall>n out. \<exists>b out'. wait_for_key_with_timeout late_key_env 600 out = Some (Inr b, out'))
   \<and> (\<forall>n out. \<exists>b out'. wait_for_key_with_timeout short_clock_env 600 out = Some (Inr b, out'))
   \<and> (\<forall>n out. map_option snd (wait_for_key_with_timeout late_key_env 600 out)
                 = map_option snd (wait_for_key_with_timeout short_clock_env 600 out))
   \<and> wait_for_key_with_timeout late_key_env 600 []
       = Some (Inr True, [countdown_text 400, clear_text])
   \<and> wait_for_key_with_timeout short_clock_env 600 []
       = Some (Inr False, [countdown_text 400, clear_text])
   \<and> main demo_random (\<lambda>n. late_key_env) 1 (Some 3) 600 new_world
       = main demo_random (\<lambda>n. short_clock_env) 1 (Some 3) 600 new_world
   \<and> (\<exists>w'. main demo_random (\<lambda>n. late_key_env) 1 (Some 3) 600 new_world = Some (Inr (), w')
          \<and> length (stdout w') = 14)
   \<and> wait_for_key_with_timeout space_env 600 [] = Some (Inr True, [clear_text])
   \<and> wait_for_key_with_timeout timeout_env 600 []
       = Some (Inr False, [countdown_text 100, clear_text])
   \<and> (\<exists>w1' w2'. main demo_random (\<lambda>n. space_env) 1 (Some 3) 600 new_world = Some (Inr (), w1')
      \<and> main demo_random (\<lambda>n. timeout_env) 1 (Some 3) 600 new_world = Some (Inr (), w2')
      \<and> rng w1' = rng w2' \<and> waits w1' = waits w2'
      \<and> stdout w1' \<noteq> stdout w2'
      \<and> street_lines (stdout w1') = street_lines (stdout w2')
      \<and> street_lines (stdout w1') = demo_lines)"
proof -
  have l: "\<forall>n out. \<exists>b out'.
             wait_for_key_with_timeout ((\<lambda>n. late_key_env) n) 600 out = Some (Inr b, out')"
    by (auto simp: wait_late_key_env)
  have s: "\<forall>n out. \<exists>b out'.
             wait_for_key_with_timeout ((\<lambda>n. short_clock_env) n) 600 out = Some (Inr b, out')"
    by (auto simp: wait_short_clock_env)
  have e: "\<forall>n out. map_option snd (wait_for_key_with_timeout ((\<lambda>n. late_key_env) n) 600 out)
             = map_option snd (wait_for_key_with_timeout ((\<lambda>n. short_clock_env) n) 600 out)"
    by (simp add: wait_late_key_env wait_short_clock_env)
  have same: "main demo_random (\<lambda>n. late_key_env) 1 (Some 3) 600 new_world
                = main demo_random (\<lambda>n. short_clock_env) 1 (Some 3) 600 new_world"
    using main_ignores_wait_outcome [OF l s refl refl refl, of demo_random 1 "Some 3" new_world] e
    by blast
  have k: "\<forall>n out. \<exists>b out'.
             wait_for_key_with_timeout ((\<lambda>n. space_env) n) 600 out = Some (Inr b, out')"
    by (auto simp: wait_space_env)
  have t: "\<forall>n out. \<exists>b out'.
             wait_for_key_with_timeout ((\<lambda>n. timeout_env) n) 600 out = Some (Inr b, out')"
    by (auto simp: wait_timeout_env)
  from space_session_lines obtain w1' where
    m1: "main demo_random (\<lambda>n. space_env) 1 (Some 3) 600 new_world = Some (Inr (), w1')"
    and n1: "length (stdout w1') = 10" and l1: "street_lines (stdout w1') = demo_lines"
    by blast
  from main_ignores_wait_outcome [OF k t refl refl refl, of demo_random 1 "Some 3" new_world] m1
  obtain w2' where
    m2: "main demo_random (\<lambda>n. timeout_env) 1 (Some 3) 600 new_world = Some (Inr (), w2')"
    and r: "rng w1' = rng w2'" "waits w1' = waits w2'"
      "street_lines (stdout w1') = street_lines (stdout w2')"
    by blast
  from timeout_session_lines m2 have "length (stdout w2') = 14"
    by auto
  with n1 have d: "stdout w1' \<noteq> stdout w2'" by auto
  from m1 m2 r d l1 have pair: "\<exists>w1' w2'.
      main demo_random (\<lambda>n. space_env) 1 (Some 3) 600 new_world = Some (Inr (), w1')
      \<and> main demo_random (\<lambda>n. timeout_env) 1 (Some 3) 600 new_world = Some (Inr (), w2')
      \<and> rng w1' = rng w2' \<and> waits w1' = waits w2'
      \<and> stdout w1' \<noteq> stdout w2'
      \<and> street_lines (stdout w1') = street_lines (stdout w2')
      \<and> street_lines (stdout w1') = demo_lines"
    by blast
  show ?thesis
    using l s e same late_key_session pair
      wait_late_key_env [of "[]"] wait_short_clock_env [of "[]"]
      wait_space_env [of "[]"] wait_timeout_env [of "[]"]
    by simp
qed

section \<open>Sessions without a terminal\<close>

lemma countdown_zero_timeout:
  assumes "clock env 0 \<le> clock env 1"
  shows "wait_for_key_with_timeout env 0 out = Some (Inr False, out @ [clear_text])"
  unfolding wait_for_key_with_timeout_def
  using assms by (subst countdown.simps) simp

text \<open>One hand, when every wait returns \<open>False\<close> having written the blanking text.\<close>

lemma reveal_no_terminal:
  assumes W: "\<forall>n out. wait_for_key_with_timeout (envs n) t out
                 = Some (Inr False, out @ [clear_text])"
    and "length board = 5" and "set (c1 # c2 # board) \<subseteq> set fresh_deck"
  shows "reveal envs t i (c1, c2) board w
           = Some (Inr (), w\<lparr>stdout := stdout w @ hand_text i ((c1, c2), board),
                              waits := waits w + 4\<rparr>)"
proof -
  from assms(2) obtain b0 b1 b2 b3 b4 where b: "board = [b0, b1, b2, b3, b4]"
    by (auto simp: length_Suc_conv eval_nat_numeral)
  with assms(3) have f:
    "format_card c1 = Inr (card_text c1)" "format_card c2 = Inr (card_text c2)"
    "format_card b0 = Inr (card_text b0)" "format_card b1 = Inr (card_text b1)"
    "format_card b2 = Inr (card_text b2)" "format_card b3 = Inr (card_text b3)"
    "format_card b4 = Inr (card_text b4)"
    by (simp_all add: format_card_well_formed)
  show ?thesis
    by (simp add: reveal_def bind_prog_def py_print_def lift_err_def wait_prog_def W b f
        format_cards_def list_get_def return_prog_def hand_text_def)
qed

lemma deal_prog_cases:
  assumes "permuting R"
  shows "(deal_btn_open_and_board R seed (rng w) = None \<and> deal_prog R seed w = None)
       \<or> (\<exists>c1 c2 board g'.
            deal_btn_open_and_board R seed (rng w) = Some (Inr ((c1, c2), board), g')
            \<and> deal_prog R seed w = Some (Inr ((c1, c2), board), w\<lparr>rng := g'\<rparr>)
            \<and> length board = 5 \<and> set (c1 # c2 # board) \<subseteq> set fresh_deck)"
proof (cases "deal_btn_open_and_board R seed (rng w)")
  case None
  then show ?thesis by (simp add: deal_prog_def)
next
  case (Some y)
  then have "deal_loop R (seed_rng R seed (rng w)) = Some y"
    by (simp add: deal_btn_open_and_board_def)
  from deal_loop_partial [OF this] assms obtain c1 c2 board where
    "fst y = Inr ((c1, c2), board)" "length board = 5"
    "set (c1 # c2 # board) \<subseteq> set fresh_deck"
    by blast
  with Some show ?thesis
    by (cases y) (simp add: deal_prog_def)
qed

text \<open>
  The loop of \<open>main\<close> then returns exactly when all its deals return, and has written
  the text of every hand.
\<close>

lemma main_loop_no_terminal:
  assumes "permuting R"
    and W: "\<forall>n out. wait_for_key_with_timeout (envs n) t out
                 = Some (Inr False, out @ [clear_text])"
  shows "main_loop R envs t hs seed w
           = (case dealt_hands R hs seed (rng w) of
                None \<Rightarrow> None
              | Some (ds, g') \<Rightarrow>
                  Some (Inr (), w\<lparr>rng := g', stdout := stdout w @ hands_text hs ds,
                                   waits := waits w + 4 * length hs\<rparr>))"
proof (induction hs arbitrary: seed w)
  case Nil
  show ?case by (simp add: return_prog_def)
next
  case (Cons i rest)
  from deal_prog_cases [OF assms(1), of seed w] show ?case
  proof (elim disjE conjE exE)
    assume "deal_btn_open_and_board R seed (rng w) = None" "deal_prog R seed w = None"
    then show ?thesis by (simp add: bind_prog_def)
  next
    fix c1 c2 board g'
    assume d: "deal_btn_open_and_board R seed (rng w) = Some (Inr ((c1, c2), board), g')"
      and p: "deal_prog R seed w = Some (Inr ((c1, c2), board), w\<lparr>rng := g'\<rparr>)"
      and g: "length board = 5" "set (c1 # c2 # board) \<subseteq> set fresh_deck"
    note r = reveal_no_terminal [OF W g, of i "w\<lparr>rng := g'\<rparr>"]
    show ?thesis
    proof (cases "dealt_hands R rest (next_seed seed) g'")
      case None
      with d p r Cons.IH [of "next_seed seed"
          "w\<lparr>rng := g', stdout := stdout w @ hand_text i ((c1, c2), board), waits := waits w + 4\<rparr>"]
      show ?thesis by (simp add: bind_prog_def)
    next
      case (Some a)
      obtain ds g'' where "a = (ds, g'')" by (cases a)
      with Some d p r Cons.IH [of "next_seed seed"
          "w\<lparr>rng := g', stdout := stdout w @ hand_text i ((c1, c2), board), waits := waits w + 4\<rparr>"]
      show ?thesis by (simp add: bind_prog_def)
    qed
  qed
qed

lemma dealt_hands_length:
  "dealt_hands R hs seed g = Some (ds, g') \<Longrightarrow> length ds = length hs"
proof (induction hs arbitrary: seed g ds)
  case Nil
  then show ?case by simp
next
  case (Cons i rest)
  then show ?case
    by (auto split: option.splits sum.splits prod.splits)
qed

lemma dealt_hands_returns:
  assumes "permuting R" and "\<forall>g. \<exists>k. accepted R (attempt_state R g k)"
  shows "\<exists>ds g'. dealt_hands R hs seed g = Some (ds, g')"
proof (induction hs arbitrary: seed g)
  case Nil
  show ?case by simp
next
  case (Cons i rest)
  from assms obtain y where y: "deal_loop R (seed_rng R seed g) = Some y"
    using deal_loop_returns [OF assms(1)] by blast
  from deal_loop_partial [OF y] assms(1) obtain d where "fst y = Inr d"
    by blast
  with y obtain g1 where d: "deal_btn_open_and_board R seed g = Some (Inr d, g1)"
    by (cases y) (simp add: deal_btn_open_and_board_def)
  from Cons.IH obtain ds g2 where "dealt_hands R rest (next_seed seed) g1 = Some (ds, g2)"
    by blast
  with d show ?case by simp
qed

lemma street_lines_hand_text: "length (street_lines (hand_text i d)) = 5"
  by (simp add: street_lines_def hand_text_def clear_text_def nl_def cr_def)

lemma street_lines_hands_text:
  "length ds = length hs \<Longrightarrow> length (street_lines (hands_text hs ds)) = 5 * length hs"
proof (induction hs ds rule: hands_text.induct)
  case (1 i rest d ds)
  then show ?case by (simp add: street_lines_hand_text)
qed (simp_all add: street_lines_def)

lemma attempt_state_demo_random: "attempt_state demo_random g k = g + k"
  by (induction k arbitrary: g) (simp_all add: demo_random_def)

lemma demo_random_accepts: "\<exists>k. accepted demo_random (attempt_state demo_random g k)"
proof -
  have "is_btn_open_45 ''2s'' ''2h'' = Inr True"
    by (simp add: is_btn_open_45_def normalize_cards_def str_get_def rank_value_simps)
  moreover have "drop (g + 52) fresh_deck @ take (g + 52) fresh_deck = fresh_deck"
    using fresh_deck_52 by simp
  ultimately have "accepted demo_random (g + 52)"
    by (simp add: accepted_def demo_random_def) (simp add: fresh_deck_eval)
  then show ?thesis
    unfolding attempt_state_demo_random by blast
qed

text \<open>
  C8. With \<open>--timeout 0\<close> and a standard input without a file descriptor, for a
  generator that permutes and a clock that does not run backwards between its first two
  readings: the watcher returns at once, never sets \<open>key_pressed\<close> and never raises;
  every wait returns \<open>False\<close> after no round of the countdown, having written the
  blanking text only; and \<open>main\<close>, for every number of hands (1, 2 and 3 among them),
  never raises and returns exactly when each of its deals returns, having then written,
  for every hand from 1 to \<open>hands\<close> in turn, the header, the preflop, the flop, the turn
  and the river of the hand dealt with a blanking text after each street, and at last
  \<open>Done. Good session.\<close>, and begun four waits for each hand. The rejection loop of the
  dealer has no bound, so a session can fail to return there and nowhere else: when the
  generator, from every state, eventually shuffles a hand of the range to the top, all
  the hands are dealt and the session returns, with the exit status 0, \<open>4 * hands\<close>
  waits begun and \<open>5 * hands + 1\<close> lines printed.
\<close>

theorem session_without_terminal_completes:
  assumes "permuting R"
    and "\<forall>n. stdin (envs n) = NoFileno"
    and "\<forall>n. clock (envs n) 0 \<le> clock (envs n) 1"
  shows "(\<forall>n chars. check_keypress (check_keypress_start (stdin (envs n)), False) chars
            = (Returned, False))
       \<and> (\<forall>n out. wait_for_key_with_timeout (envs n) 0 out
            = Some (Inr False, out @ [clear_text]))
       \<and> main R envs hands seed 0 w
           = (case dealt_hands R [1..hands] seed (rng w) of
                None \<Rightarrow> None
              | Some (ds, g') \<Rightarrow>
                  Some (Inr (),
                    w\<lparr>rng := g',
                      stdout := stdout w @ hands_text [1..hands] ds
                                  @ [nl # ''Done. Good session.'' @ [nl]],
                      waits := waits w + 4 * nat hands\<rparr>))
       \<and> ((\<forall>g. \<exists>k. accepted R (attempt_state R g k)) \<longrightarrow>
            (\<exists>ds g' w'. dealt_hands R [1..hands] seed (rng w) = Some (ds, g')
               \<and> length ds = nat hands
               \<and> main R envs hands seed 0 w = Some (Inr (), w')
               \<and> program R envs hands seed 0 w = Some (0, w')
               \<and> waits w' = waits w + 4 * nat hands
               \<and> length (street_lines (stdout w'))
                   = length (street_lines (stdout w)) + 5 * nat hands + 1
               \<and> last (stdout w') = nl # ''Done. Good session.'' @ [nl]))"
proof -
  have watcher: "check_keypress (check_keypress_start (stdin (envs n)), False) chars
                   = (Returned, False)" for n chars
  proof -
    have "foldl check_keypress_step (Returned, False) cs = (Returned, False)" for cs
      by (induction cs) simp_all
    then show ?thesis
      using assms(2) by (simp add: check_keypress_def check_keypress_start_def)
  qed
  have W: "\<forall>n out. wait_for_key_with_timeout (envs n) 0 out
             = Some (Inr False, out @ [clear_text])"
    using assms(3) by (simp add: countdown_zero_timeout)
  have len: "length [1..hands] = nat hands"
    by simp
  have exact: "main R envs hands seed 0 w
           = (case dealt_hands R [1..hands] seed (rng w) of
                None \<Rightarrow> None
              | Some (ds, g') \<Rightarrow>
                  Some (Inr (),
                    w\<lparr>rng := g',
                      stdout := stdout w @ hands_text [1..hands] ds
                                  @ [nl # ''Done. Good session.'' @ [nl]],
                      waits := waits w + 4 * nat hands\<rparr>))"
    unfolding main_def bind_prog_def main_loop_no_terminal [OF assms(1) W] len
    by (simp add: py_print_def split: option.splits)
  have fair: "\<exists>ds g' w'. dealt_hands R [1..hands] seed (rng w) = Some (ds, g')
               \<and> length ds = nat hands
               \<and> main R envs hands seed 0 w = Some (Inr (), w')
               \<and> program R envs hands seed 0 w = Some (0, w')
               \<and> waits w' = waits w + 4 * nat hands
               \<and> length (street_lines (stdout w'))
                   = length (street_lines (stdout w)) + 5 * nat hands + 1
               \<and> last (stdout w') = nl # ''Done. Good session.'' @ [nl]"
    if f: "\<forall>g. \<exists>k. accepted R (attempt_state R g k)"
  proof -
    from dealt_hands_returns [OF assms(1) f] obtain ds g' where
      d: "dealt_hands R [1..hands] seed (rng w) = Some (ds, g')"
      by blast
    from dealt_hands_length [OF d] have l: "length ds = nat hands"
      by simp
    define w' where "w' = w\<lparr>rng := g',
                      stdout := stdout w @ hands_text [1..hands] ds
                                  @ [nl # ''Done. Good session.'' @ [nl]],
                      waits := waits w + 4 * nat hands\<rparr>"
    from exact d have m: "main R envs hands seed 0 w = Some (Inr (), w')"
      by (simp add: w'_def)
    then have p: "program R envs hands seed 0 w = Some (0, w')"
      by (simp add: program_def)
    have "street_lines [nl # ''Done. Good session.'' @ [nl]]
            = [nl # ''Done. Good session.'' @ [nl]]"
      by (simp add: street_lines_def nl_def cr_def)
    with street_lines_hands_text [of ds "[1..hands]"] l
    have c: "length (street_lines (stdout w'))
               = length (street_lines (stdout w)) + 5 * nat hands + 1"
      by (simp add: w'_def)
    from d l m p c show ?thesis
      by (intro exI [of _ ds] exI [of _ g'] exI [of _ w']) (simp add: w'_def)
  qed
  from watcher W exact fair show ?thesis
    by blast
qed

theorem session_without_terminal_completes_witness:
  "permuting demo_random
   \<and> (\<forall>n. stdin ((\<lambda>n. no_terminal_env) n) = NoFileno)
   \<and> (\<forall>n. clock ((\<lambda>n. no_terminal_env) n) 0 \<le> clock ((\<lambda>n. no_terminal_env) n) 1)
   \<and> (\<forall>g. \<exists>k. accepted demo_random (attempt_state demo_random g k))
   \<and> wait_for_key_with_timeout no_terminal_env 0 [] = Some (Inr False, [clear_text])
   \<and> (\<exists>w'. main demo_random (\<lambda>n. no_terminal_env) 3 None 0 new_world = Some (Inr (), w')
            \<and> program demo_random (\<lambda>n. no_terminal_env) 3 None 0 new_world = Some (0, w')
            \<and> waits w' = 12
            \<and> length (street_lines (stdout w')) = 16
            \<and> last (stdout w') = nl # ''Done. Good session.'' @ [nl])"
proof -
  have a: "\<forall>g. \<exists>k. accepted demo_random (attempt_state demo_random g k)"
    using demo_random_accepts by blast
  have b: "\<forall>n. stdin ((\<lambda>n. no_terminal_env) n) = NoFileno"
    by (simp add: no_terminal_env_def)
  have c: "\<forall>n. clock ((\<lambda>n. no_terminal_env) n) 0 \<le> clock ((\<lambda>n. no_terminal_env) n) 1"
    by (simp add: no_terminal_env_def)
  have n: "waits new_world = 0" "street_lines (stdout new_world) = []"
    by (simp_all add: new_world_def street_lines_def)
  from session_without_terminal_completes
    [OF permuting_demo_random b c, of 3 None new_world] a
  obtain w' where
    "main demo_random (\<lambda>n. no_terminal_env) 3 None 0 new_world = Some (Inr (), w')"
    "program demo_random (\<lambda>n. no_terminal_env) 3 None 0 new_world = Some (0, w')"
    "waits w' = waits new_world + 4 * nat 3"
    "length (street_lines (stdout w')) = length (street_lines (stdout new_world)) + 5 * nat 3 + 1"
    "last (stdout w') = nl # ''Done. Good session.'' @ [nl]"
    by blast
  with n have "\<exists>w'. main demo_random (\<lambda>n. no_terminal_env) 3 None 0 new_world = Some (Inr (), w')
            \<and> program demo_random (\<lambda>n. no_terminal_env) 3 None 0 new_world = Some (0, w')
            \<and> waits w' = 12
            \<and> length (street_lines (stdout w')) = 16
            \<and> last (stdout w') = nl # ''Done. Good session.'' @ [nl]"
    by auto
  moreover have "wait_for_key_with_timeout no_terminal_env 0 [] = Some (Inr False, [clear_text])"
    using countdown_zero_timeout [of no_terminal_env "[]"] by (simp add: no_terminal_env_def)
  ultimately show ?thesis
    using permuting_demo_random a b c by blast
qed

section \<open>Seeds\<close>









section \<open>Ctrl-C during a wait\<close>

text \<open>
  C6 does not hold of the code. The session of one hand, \<open>--seed 3 --timeout 600\<close>, on a
  terminal; during the wait after the preflop line the user types Ctrl-C, which the
  watcher thread reads as the character 0x03 (lemma \<open>watcher_ctrl_c\<close>: the watcher
  raises KeyboardInterrupt and \<open>key_pressed\<close> stays unset). The exception ends the
  watcher thread only: the wait runs to its timeout, the flop, the turn and the river
  are revealed, the session ends with \<open>Done. Good session.\<close>, and the notice
  \<open>Stopped by user.\<close> is never printed. (SIGINT in the main thread does stop the session:
  lemma \<open>sigint_session\<close>.)
\<close>

theorem ctrl_c_does_not_stop_session:
  "program demo_random (\<lambda>n. if n = 0 then ctrl_c_env else timeout_env) 1 (Some 3) 600 new_world
     = Some (0, \<lparr>rng = 5,
         stdout =
           [nl # ''Hand 1:'' @ [nl],
            ''Preflop: '' @ card_text ''3s'' @ '' '' @ card_text ''3h'' @ [nl],
            countdown_text 100, clear_text,
            ''Flop:    '' @ card_text ''3d'' @ '' '' @ card_text ''3c'' @ '' ''
              @ card_text ''4s'' @ [nl],
            countdown_text 100, clear_text,
            ''Turn:    '' @ card_text ''4h'' @ [nl],
            countdown_text 100, clear_text,
            ''River:   '' @ card_text ''4d'' @ [nl],
            countdown_text 100, clear_text,
            nl # ''Done. Good session.'' @ [nl]],
         waits = 4\<rparr>)"
  by (simp add: session_eval wait_timeout_env wait_ctrl_c_env)

end
